theory Spec2Isabelle
  imports Main "HOL-Library.Char_ord" "HOL-Library.List_Lexorder"
begin

section \<open>Common data\<close>

text \<open>
  Byte contents (\<^verbatim>\<open>Uint8Array\<close>, \<^verbatim>\<open>Buffer\<close>) are lists of naturals. JavaScript
  numbers that hold revisions and timestamps are integer-valued doubles and are
  modelled as \<^typ>\<open>int\<close>, the exact value of the double; comparisons of doubles are
  comparisons of these values. Where a number is read from text, the rounding to a
  double and the overflow to \<^verbatim>\<open>Infinity\<close> are part of the model (\<open>toNumber\<close> below).
  Strings are \<^typ>\<open>string\<close>, lists of 8-bit characters.
\<close>

type_synonym bytes = "nat list"

section \<open>Backend: \<^verbatim>\<open>backend/src/validate.ts\<close>\<close>

text \<open>
  An \<^verbatim>\<open>Error\<close> object as the handlers throw it: its message and the \<^verbatim>\<open>status\<close>
  property, when one was attached.
\<close>

record http_error =
  message :: string
  err_status :: "nat option"

text \<open>The character class \<^verbatim>\<open>[a-zA-Z0-9_-]\<close> of the docId pattern.\<close>

definition docIdChar :: "char \<Rightarrow> bool" where
  "docIdChar c \<longleftrightarrow>
     c \<in> set ''abcdefghijklmnopqrstuvwxyzABCDEFGHIJKLMNOPQRSTUVWXYZ0123456789_-''"

text \<open>\<^verbatim>\<open>/^[a-zA-Z0-9_-]{8,80}$/.test(docId)\<close>.\<close>

definition validDocId :: "string \<Rightarrow> bool" where
  "validDocId d \<longleftrightarrow> 8 \<le> length d \<and> length d \<le> 80 \<and> list_all docIdChar d"

definition assertDocId :: "string \<Rightarrow> http_error + unit" where
  "assertDocId d =
     (if \<not> validDocId d
      then Inl \<lparr>message = ''docId invalide'', err_status = Some 400\<rparr>
      else Inr ())"

text \<open>
  A Number as \<^verbatim>\<open>Number.parseInt\<close> returns it: \<^verbatim>\<open>NaN\<close>, an infinity, or a finite
  double, which is an integer here and is held as its exact value (\<open>-0\<close> as \<open>0\<close>).
  \<^verbatim>\<open>Number.isFinite\<close> holds of the finite ones only.
\<close>

datatype js_number = NaN | PlusInfinity | MinusInfinity | Finite int

text \<open>
  The Number value of a natural number: the nearest double, ties to the even
  significand. Below \<open>2^53\<close> every integer is a double. From there on a double has 53
  significant bits: \<open>n\<close> of \<open>53 + e\<close> bits lies between \<open>q * 2^e\<close> and \<open>(q + 1) * 2^e\<close>, and
  the remainder decides which of the two is taken. A result of \<open>2^1024\<close> or more is
  \<^verbatim>\<open>Infinity\<close>, here \<open>None\<close>.
\<close>

fun bit_length :: "nat \<Rightarrow> nat" where
  "bit_length n = (if n = 0 then 0 else Suc (bit_length (n div 2)))"

declare bit_length.simps [simp del]

definition toNumber :: "nat \<Rightarrow> nat option" where
  "toNumber n =
     (if n < 2 ^ 53 then Some n
      else let e = bit_length n - 53;
               q = n div 2 ^ e;
               r = n mod 2 ^ e;
               q' = (if 2 ^ (e - 1) < r \<or> (r = 2 ^ (e - 1) \<and> odd q) then q + 1 else q)
           in if 2 ^ 1024 \<le> q' * 2 ^ e then None else Some (q' * 2 ^ e))"

text \<open>
  \<^verbatim>\<open>Number.parseInt(v, 10)\<close>: leading white space is skipped (of the 8-bit characters
  these are TAB, LF, VT, FF, CR, the space and the no-break space U+00A0; the Unicode
  ones above U+00FF are outside the 8-bit model), then an optional sign, then the longest
  run of decimal digits; \<^verbatim>\<open>NaN\<close> when that run is empty. Whatever follows the digits is
  ignored. The result is the Number value of the signed integer that the run denotes:
  the integer itself up to \<open>2^53\<close>, the nearest double beyond, an infinity when the run
  is too long for a double. (The standard lets an implementation read the digits after
  the twentieth as zeros; V8, which runs the backend, rounds the whole run.)
\<close>

definition isStrWhiteSpace :: "char \<Rightarrow> bool" where
  "isStrWhiteSpace c \<longleftrightarrow> (of_char c :: nat) \<in> {9, 10, 11, 12, 13, 32, 160}"

definition isDigit :: "char \<Rightarrow> bool" where
  "isDigit c \<longleftrightarrow> c \<in> set ''0123456789''"

definition digitVal :: "char \<Rightarrow> nat" where
  "digitVal c = of_char c - 48"

definition digitsVal :: "string \<Rightarrow> nat" where
  "digitsVal ds = foldl (\<lambda>n c. 10 * n + digitVal c) 0 ds"

definition parseInt10 :: "string \<Rightarrow> js_number" where
  "parseInt10 s =
     (let s1 = dropWhile isStrWhiteSpace s;
          neg = (case s1 of [] \<Rightarrow> False | c # _ \<Rightarrow> c = CHR ''-'');
          s2 = (case s1 of [] \<Rightarrow> []
                | c # r \<Rightarrow> if c = CHR ''-'' \<or> c = CHR ''+'' then r else s1);
          ds = takeWhile isDigit s2
      in if ds = [] then NaN
         else case toNumber (digitsVal ds) of
                None \<Rightarrow> if neg then MinusInfinity else PlusInfinity
              | Some m \<Rightarrow> Finite (if neg then - int m else int m))"

text \<open>
  \<^verbatim>\<open>parseIntField(name, v)\<close>. The field \<open>v\<close> is \<open>Some s\<close> when it is a string and
  \<open>None\<close> otherwise (\<^verbatim>\<open>typeof v !== "string"\<close> gives \<^verbatim>\<open>NaN\<close>). A result that is not
  finite, \<^verbatim>\<open>NaN\<close> or an infinity, throws the error with status 400.
\<close>

definition parseIntField :: "string \<Rightarrow> string option \<Rightarrow> http_error + int" where
  "parseIntField name v =
     (case (case v of Some s \<Rightarrow> parseInt10 s | None \<Rightarrow> NaN) of
        Finite n \<Rightarrow> Inr n
      | _ \<Rightarrow> Inl \<lparr>message = ''Champ invalide: '' @ name, err_status = Some 400\<rparr>)"

section \<open>Backend: \<^verbatim>\<open>backend/src/indexDb.ts\<close>\<close>

record DocRow =
  row_docId :: string
  row_filename :: string
  row_createdAt :: int
  row_updatedAt :: int
  row_rev :: int
  row_sha256 :: string
  row_sizeBytes :: nat

text \<open>The table \<^verbatim>\<open>docs\<close>, with \<^verbatim>\<open>docId\<close> as its primary key.\<close>

type_synonym docs_table = "string \<rightharpoonup> DocRow"

definition getDoc :: "docs_table \<Rightarrow> string \<Rightarrow> DocRow option" where
  "getDoc t d = t d"

text \<open>
  \<^verbatim>\<open>INSERT ... ON CONFLICT(docId) DO UPDATE SET\<close> filename, updatedAt, rev, sha256,
  sizeBytes: an existing row keeps its \<^verbatim>\<open>createdAt\<close>.
\<close>

definition upsertDoc :: "docs_table \<Rightarrow> DocRow \<Rightarrow> docs_table" where
  "upsertDoc t row =
     (case t (row_docId row) of
        None \<Rightarrow> t(row_docId row \<mapsto> row)
      | Some old \<Rightarrow>
          t(row_docId row \<mapsto> old\<lparr>row_filename := row_filename row,
                                   row_updatedAt := row_updatedAt row,
                                   row_rev := row_rev row,
                                   row_sha256 := row_sha256 row,
                                   row_sizeBytes := row_sizeBytes row\<rparr>))"

section \<open>Backend: \<^verbatim>\<open>backend/src/index.ts\<close>\<close>

text \<open>
  The server's state: the index and the stored files. The file of \<open>(docId, rev)\<close> is the
  one at \<^verbatim>\<open>latestPdfPath(docId, rev)\<close>, that is \<^verbatim>\<open>pdfs/<docId>/rev-<rev>.pdf\<close>. File
  system calls are taken to succeed.
\<close>

record server =
  index :: docs_table
  files :: "(string \<times> int) \<rightharpoonup> bytes"

text \<open>
  The multipart form of an upload as \<^verbatim>\<open>multer\<close> hands it to the handler: the text
  fields of \<^verbatim>\<open>req.body\<close> (absent, or a string) and \<^verbatim>\<open>req.file\<close>.
\<close>

record upload_form =
  body_docId :: "string option"
  body_filename :: "string option"
  body_revClient :: "string option"
  req_file :: "bytes option"

datatype res_body =
    ErrorJson string                   \<comment> \<open>\<^verbatim>\<open>{error}\<close>\<close>
  | ConflictJson int                   \<comment> \<open>\<^verbatim>\<open>{error: "conflict", revServer}\<close>\<close>
  | MetaJson string int string int     \<comment> \<open>\<^verbatim>\<open>{docId, rev, filename, updatedAt}\<close>\<close>
  | CreatedJson string int string      \<comment> \<open>\<^verbatim>\<open>{docId, revServer, url}\<close>\<close>
  | UpdatedJson string int             \<comment> \<open>\<^verbatim>\<open>{docId, revServer}\<close>\<close>
  | PdfFile bytes                      \<comment> \<open>\<^verbatim>\<open>res.sendFile\<close> of a stored file\<close>

datatype response = Response nat res_body

text \<open>
  What a request ends in: a response that was sent, or an error that was thrown where
  nothing catches it, so that no response is written.
\<close>

datatype outcome = Sent response | Unhandled http_error

text \<open>The error-handling middleware at the end of \<^verbatim>\<open>main\<close>.\<close>

definition error_handler :: "http_error \<Rightarrow> response" where
  "error_handler err =
     Response (case err_status err of Some s \<Rightarrow> s | None \<Rightarrow> 500) (ErrorJson (message err))"

text \<open>
  How the router (Express 4, whose path syntax the route \<^verbatim>\<open>app.get("*", ...)\<close> uses)
  runs a handler. A handler is called inside a \<^verbatim>\<open>try\<close>: what a synchronous handler
  throws goes to the error handler. The promise an \<^verbatim>\<open>async\<close> handler returns is
  dropped: what is thrown inside it rejects that promise and reaches the error handler
  only where the handler itself catches it and calls \<^verbatim>\<open>next(e)\<close>.
\<close>

definition run_sync :: "http_error + response \<Rightarrow> outcome" where
  "run_sync r = (case r of Inl e \<Rightarrow> Sent (error_handler e) | Inr x \<Rightarrow> Sent x)"

definition run_async :: "http_error + response \<Rightarrow> outcome" where
  "run_async r = (case r of Inl e \<Rightarrow> Unhandled e | Inr x \<Rightarrow> Sent x)"

text \<open>\<^verbatim>\<open>GET /api/docs/:docId/meta\<close>, a synchronous handler.\<close>

definition get_meta_handler :: "string \<Rightarrow> server \<Rightarrow> http_error + response" where
  "get_meta_handler docId st =
     (case assertDocId docId of
        Inl e \<Rightarrow> Inl e
      | Inr _ \<Rightarrow>
          (case getDoc (index st) docId of
             None \<Rightarrow> Inr (Response 404 (ErrorJson ''not_found''))
           | Some doc \<Rightarrow>
               Inr (Response 200 (MetaJson (row_docId doc) (row_rev doc)
                                    (row_filename doc) (row_updatedAt doc)))))"

definition get_meta :: "string \<Rightarrow> server \<Rightarrow> outcome" where
  "get_meta docId st = run_sync (get_meta_handler docId st)"

text \<open>\<^verbatim>\<open>GET /api/docs/:docId/file\<close>, an \<^verbatim>\<open>async\<close> handler with no \<^verbatim>\<open>try\<close>.\<close>

definition get_file_handler :: "string \<Rightarrow> server \<Rightarrow> http_error + response" where
  "get_file_handler docId st =
     (case assertDocId docId of
        Inl e \<Rightarrow> Inl e
      | Inr _ \<Rightarrow>
          (case getDoc (index st) docId of
             None \<Rightarrow> Inr (Response 404 (ErrorJson ''not_found''))
           | Some doc \<Rightarrow>
               (case files st (docId, row_rev doc) of
                  None \<Rightarrow> Inr (Response 404 (ErrorJson ''file_missing''))
                | Some content \<Rightarrow> Inr (Response 200 (PdfFile content)))))"

definition get_file :: "string \<Rightarrow> server \<Rightarrow> outcome" where
  "get_file docId st = run_async (get_file_handler docId st)"

text \<open>
  The part the two upload handlers share word for word: write the file of
  \<open>(docId, revServer)\<close>, then upsert the row. \<open>sha\<close> is \<^verbatim>\<open>IndexDb.sha256Hex\<close>, \<open>now\<close>
  is \<^verbatim>\<open>Date.now()\<close>, \<open>created\<close> is the \<^verbatim>\<open>createdAt\<close> the handler passes.
\<close>

definition store_revision ::
  "(bytes \<Rightarrow> string) \<Rightarrow> int \<Rightarrow> string \<Rightarrow> string \<Rightarrow> int \<Rightarrow> bytes \<Rightarrow> int \<Rightarrow> server \<Rightarrow> server" where
  "store_revision sha now docId filename revServer buf created st =
     st\<lparr>files := (files st)((docId, revServer) \<mapsto> buf),
        index := upsertDoc (index st)
          \<lparr>row_docId = docId, row_filename = filename, row_createdAt = created,
           row_updatedAt = now, row_rev = revServer, row_sha256 = sha buf,
           row_sizeBytes = length buf\<rparr>\<rparr>"

text \<open>\<^verbatim>\<open>POST /api/docs\<close>: the body of the handler's \<^verbatim>\<open>try\<close>.\<close>

definition post_docs_handler ::
  "(bytes \<Rightarrow> string) \<Rightarrow> int \<Rightarrow> upload_form \<Rightarrow> server \<Rightarrow> http_error + response \<times> server" where
  "post_docs_handler sha now form st =
     (let docId = (case body_docId form of None \<Rightarrow> [] | Some s \<Rightarrow> s);
          filename = (case body_filename form of None \<Rightarrow> docId @ ''.pdf'' | Some s \<Rightarrow> s)
      in case parseIntField ''revClient'' (body_revClient form) of
           Inl e \<Rightarrow> Inl e
         | Inr revClient \<Rightarrow>
             (case assertDocId docId of
                Inl e \<Rightarrow> Inl e
              | Inr _ \<Rightarrow>
                  (case req_file form of
                     None \<Rightarrow> Inr (Response 400 (ErrorJson ''missing_file''), st)
                   | Some buf \<Rightarrow>
                       (case getDoc (index st) docId of
                          None \<Rightarrow>
                            Inr (Response 200 (CreatedJson docId revClient (''/d/'' @ docId)),
                                 store_revision sha now docId filename revClient buf now st)
                        | Some existing \<Rightarrow>
                            if revClient \<le> row_rev existing
                            then Inr (Response 409 (ConflictJson (row_rev existing)), st)
                            else Inr (Response 200
                                        (CreatedJson docId revClient (''/d/'' @ docId)),
                                      store_revision sha now docId filename revClient buf
                                        (row_createdAt existing) st)))))"

text \<open>The handler's \<^verbatim>\<open>catch (e) { next(e) }\<close> hands every error to the error handler.\<close>

definition post_docs ::
  "(bytes \<Rightarrow> string) \<Rightarrow> int \<Rightarrow> upload_form \<Rightarrow> server \<Rightarrow> outcome \<times> server" where
  "post_docs sha now form st =
     (case post_docs_handler sha now form st of
        Inl e \<Rightarrow> (Sent (error_handler e), st)
      | Inr (r, st') \<Rightarrow> (Sent r, st'))"

text \<open>\<^verbatim>\<open>PUT /api/docs/:docId\<close>: the body of the handler's \<^verbatim>\<open>try\<close>.\<close>

definition put_doc_handler ::
  "(bytes \<Rightarrow> string) \<Rightarrow> int \<Rightarrow> string \<Rightarrow> upload_form \<Rightarrow> server
     \<Rightarrow> http_error + response \<times> server" where
  "put_doc_handler sha now docId form st =
     (case assertDocId docId of
        Inl e \<Rightarrow> Inl e
      | Inr _ \<Rightarrow>
          (let filename = (case body_filename form of None \<Rightarrow> docId @ ''.pdf'' | Some s \<Rightarrow> s)
           in case parseIntField ''revClient'' (body_revClient form) of
                Inl e \<Rightarrow> Inl e
              | Inr revClient \<Rightarrow>
                  (case req_file form of
                     None \<Rightarrow> Inr (Response 400 (ErrorJson ''missing_file''), st)
                   | Some buf \<Rightarrow>
                       (case getDoc (index st) docId of
                          None \<Rightarrow> Inr (Response 404 (ErrorJson ''not_found''), st)
                        | Some existing \<Rightarrow>
                            if revClient \<le> row_rev existing
                            then Inr (Response 409 (ConflictJson (row_rev existing)), st)
                            else Inr (Response 200 (UpdatedJson docId revClient),
                                      store_revision sha now docId filename revClient buf
                                        (row_createdAt existing) st)))))"

definition put_doc ::
  "(bytes \<Rightarrow> string) \<Rightarrow> int \<Rightarrow> string \<Rightarrow> upload_form \<Rightarrow> server \<Rightarrow> outcome \<times> server" where
  "put_doc sha now docId form st =
     (case put_doc_handler sha now docId form st of
        Inl e \<Rightarrow> (Sent (error_handler e), st)
      | Inr (r, st') \<Rightarrow> (Sent r, st'))"

text \<open>The status code of a response that was sent, and the revision the index holds.\<close>

definition status_of :: "outcome \<Rightarrow> nat option" where
  "status_of out = (case out of Sent (Response s _) \<Rightarrow> Some s | Unhandled _ \<Rightarrow> None)"

definition current_rev :: "server \<Rightarrow> string \<Rightarrow> int option" where
  "current_rev st d = map_option row_rev (getDoc (index st) d)"

section \<open>Frontend: \<^verbatim>\<open>frontend/src/db.ts\<close> (its text is in \<^verbatim>\<open>src/Dockerfile\<close>, lines 68 to 273)\<close>

text \<open>
  The decimal text of an integer, as \<^verbatim>\<open>String(n)\<close> and a template literal give it.
\<close>

fun show_nat :: "nat \<Rightarrow> string" where
  "show_nat n =
     (if n < 10 then [''0123456789'' ! n]
      else show_nat (n div 10) @ [''0123456789'' ! (n mod 10)])"

declare show_nat.simps [simp del]

definition show_int :: "int \<Rightarrow> string" where
  "show_int i = (if i < 0 then CHR ''-'' # show_nat (nat (- i)) else show_nat (nat i))"

record DocMeta =
  docId :: string
  filename :: string
  createdAt :: int
  updatedAt :: int
  revLocal :: int
  revServer :: "int option"
  lastSyncedAt :: "int option"

record OutboxEntry =
  job_id :: string
  job_docId :: string
  job_rev :: int
  job_bytes :: bytes
  job_createdAt :: int
  tries :: nat
  lastError :: "string option"

text \<open>
  The IndexedDB database: the object stores \<^verbatim>\<open>docs\<close> (key \<^verbatim>\<open>docId\<close>), \<^verbatim>\<open>blobs\<close>
  (key \<^verbatim>\<open>[docId, rev]\<close>) and \<^verbatim>\<open>outbox\<close> (key \<^verbatim>\<open>id\<close>). The outbox is the list of
  its entries in the order \<^verbatim>\<open>getAll\<close> returns them, which is the order of their keys;
  no two entries have the same \<^verbatim>\<open>id\<close>. Database calls are taken to succeed.
\<close>

record local_db =
  docs :: "string \<rightharpoonup> DocMeta"
  blobs :: "(string \<times> int) \<rightharpoonup> bytes"
  outbox :: "OutboxEntry list"

text \<open>
  \<^verbatim>\<open>ensureDocId\<close> throws an \<^verbatim>\<open>Error\<close>; on the client a thrown error is its message.
\<close>

definition ensureDocId :: "string \<Rightarrow> string + unit" where
  "ensureDocId d = (if \<not> validDocId d then Inl ''docId invalide.'' else Inr ())"

text \<open>
  \<^verbatim>\<open>upsertDocMeta(docId, fn)\<close>; \<open>now\<close> is its \<^verbatim>\<open>Date.now()\<close>. The record is put
  under the key \<^verbatim>\<open>next.docId\<close>.
\<close>

definition upsertDocMeta ::
  "int \<Rightarrow> string \<Rightarrow> (DocMeta \<Rightarrow> DocMeta) \<Rightarrow> local_db \<Rightarrow> string + DocMeta \<times> local_db" where
  "upsertDocMeta now d fn db =
     (case ensureDocId d of
        Inl e \<Rightarrow> Inl e
      | Inr _ \<Rightarrow>
          (let base = (case docs db d of
                         Some existing \<Rightarrow> existing
                       | None \<Rightarrow> \<lparr>docId = d, filename = d @ ''.pdf'', createdAt = now,
                                  updatedAt = now, revLocal = 0, revServer = None,
                                  lastSyncedAt = None\<rparr>);
               next = fn base
           in Inr (next, db\<lparr>docs := (docs db)(docId next \<mapsto> next)\<rparr>)))"

definition getDocBlobLatest :: "string \<Rightarrow> local_db \<Rightarrow> string + bytes option" where
  "getDocBlobLatest d db =
     (case ensureDocId d of
        Inl e \<Rightarrow> Inl e
      | Inr _ \<Rightarrow>
          (case docs db d of
             None \<Rightarrow> Inr None
           | Some meta \<Rightarrow> Inr (blobs db (d, revLocal meta))))"

text \<open>\<^verbatim>\<open>enqueueUpload\<close>; \<open>now\<close> is its \<^verbatim>\<open>Date.now()\<close>.\<close>

definition enqueueUpload :: "int \<Rightarrow> string \<Rightarrow> int \<Rightarrow> bytes \<Rightarrow> local_db \<Rightarrow> local_db" where
  "enqueueUpload now d rv content db =
     (let i = d @ '':'' @ show_int rv
      in if list_ex (\<lambda>j. job_id j = i) (outbox db) then db
         else db\<lparr>outbox :=
                   insort_key job_id
                     \<lparr>job_id = i, job_docId = d, job_rev = rv, job_bytes = content,
                      job_createdAt = now, tries = 0, lastError = None\<rparr>
                     (outbox db)\<rparr>)"

text \<open>
  \<^verbatim>\<open>listOutbox\<close>: \<^verbatim>\<open>all.sort((a, b) => a.createdAt - b.createdAt)\<close>, a stable sort, as
  \<^const>\<open>sort_key\<close> is.
\<close>

definition listOutbox :: "local_db \<Rightarrow> OutboxEntry list" where
  "listOutbox db = sort_key job_createdAt (outbox db)"

definition bumpOutboxTry :: "string \<Rightarrow> string \<Rightarrow> local_db \<Rightarrow> local_db" where
  "bumpOutboxTry i err db =
     db\<lparr>outbox :=
          map (\<lambda>j. if job_id j = i then j\<lparr>tries := tries j + 1, lastError := Some err\<rparr> else j)
            (outbox db)\<rparr>"

definition removeOutbox :: "string \<Rightarrow> local_db \<Rightarrow> local_db" where
  "removeOutbox i db = db\<lparr>outbox := filter (\<lambda>j. job_id j \<noteq> i) (outbox db)\<rparr>"

definition clearOutboxForDoc :: "string \<Rightarrow> int \<Rightarrow> local_db \<Rightarrow> local_db" where
  "clearOutboxForDoc d upToRev db =
     db\<lparr>outbox := filter (\<lambda>e. \<not> (job_docId e = d \<and> job_rev e \<le> upToRev)) (outbox db)\<rparr>"

text \<open>
  \<^verbatim>\<open>addDocFromDrop(opts)\<close>. The file is its name and its bytes; \<open>rv\<close> is \<^verbatim>\<open>opts.rev\<close>,
  absent or a number. \<open>now\<close>, \<open>now_meta\<close> and \<open>now_job\<close> are the \<^verbatim>\<open>Date.now()\<close> of
  the function itself, of \<^verbatim>\<open>upsertDocMeta\<close> and of \<^verbatim>\<open>enqueueUpload\<close>.
\<close>

definition addDocFromDrop ::
  "int \<Rightarrow> int \<Rightarrow> int \<Rightarrow> string \<Rightarrow> string \<times> bytes \<Rightarrow> int option \<Rightarrow> bool \<Rightarrow> local_db
     \<Rightarrow> string + local_db" where
  "addDocFromDrop now now_meta now_job d upload rev_opt fromServer db =
     (case ensureDocId d of
        Inl e \<Rightarrow> Inl e
      | Inr _ \<Rightarrow>
          (let rv = (case rev_opt of Some r \<Rightarrow> r | None \<Rightarrow> 0);
               content = snd upload
           in case upsertDocMeta now_meta d
                     (\<lambda>current.
                        (if fromServer
                         then (\<lambda>m. m\<lparr>revServer := Some rv, lastSyncedAt := Some now\<rparr>)
                         else (\<lambda>m. m))
                          (current\<lparr>filename :=
                                      (if fst upload \<noteq> [] then fst upload else filename current),
                                    updatedAt := now,
                                    revLocal := max (revLocal current) rv\<rparr>))
                     db of
                Inl e \<Rightarrow> Inl e
              | Inr (_, db1) \<Rightarrow>
                  (let db2 = db1\<lparr>blobs := (blobs db1)((d, rv) \<mapsto> content)\<rparr>
                   in if fromServer then Inr (clearOutboxForDoc d rv db2)
                      else Inr (enqueueUpload now_job d rv content db2))))"

section \<open>Frontend: \<^verbatim>\<open>frontend/src/sync.ts\<close>\<close>

datatype http_method = POST | PUT

text \<open>
  The URL of an upload: \<^verbatim>\<open>/api/docs\<close>, or \<^verbatim>\<open>/api/docs/\<close> followed by
  \<^verbatim>\<open>encodeURIComponent(docId)\<close>, which the server's router decodes to the docId again.
\<close>

datatype upload_url = ApiDocs | ApiDocsId string

text \<open>The request \<^verbatim>\<open>fetch\<close> is called with; its body is the form data.\<close>

record fetch_request =
  req_method :: http_method
  req_url :: upload_url
  req_body :: upload_form

text \<open>
  What \<^verbatim>\<open>fetch\<close> gives back. Of a response: its status, what \<^verbatim>\<open>res.text()\<close> resolves
  to (the empty string when it fails), and \<^verbatim>\<open>res.json()\<close>: \<open>Inl\<close> the message it
  rejects with, or \<open>Inr\<close> the \<^verbatim>\<open>revServer\<close> of the parsed body, \<open>None\<close> when the body
  has none.
\<close>

record http_response =
  res_status :: nat
  res_text :: string
  res_json :: "string + int option"

datatype fetch_result = FetchRejected string | FetchResponse http_response

text \<open>\<^verbatim>\<open>uploadOne\<close>, lines 21 to 31: the request it builds.\<close>

definition existsOnServer :: "DocMeta option \<Rightarrow> bool" where
  "existsOnServer meta =
     (case meta of
        None \<Rightarrow> False
      | Some m \<Rightarrow> (case revServer m of None \<Rightarrow> False | Some r \<Rightarrow> r > 0))"

definition upload_request :: "OutboxEntry \<Rightarrow> DocMeta option \<Rightarrow> fetch_request" where
  "upload_request job meta =
     (let name = (case meta of Some m \<Rightarrow> filename m | None \<Rightarrow> job_docId job @ ''.pdf'')
      in \<lparr>req_method = (if existsOnServer meta then PUT else POST),
          req_url = (if existsOnServer meta then ApiDocsId (job_docId job) else ApiDocs),
          req_body = \<lparr>body_docId = Some (job_docId job), body_filename = Some name,
                      body_revClient = Some (show_int (job_rev job)),
                      req_file = Some (job_bytes job)\<rparr>\<rparr>)"

text \<open>
  \<^verbatim>\<open>uploadOne\<close>, lines 35 to 50: what it does with the result of \<^verbatim>\<open>fetch\<close>. \<open>Inl\<close> is
  the message of the error it throws. \<open>now_meta\<close> is the \<^verbatim>\<open>Date.now()\<close> of
  \<^verbatim>\<open>upsertDocMeta\<close>, \<open>now_synced\<close> the one stored as \<^verbatim>\<open>lastSyncedAt\<close>.
\<close>

definition uploadOne ::
  "OutboxEntry \<Rightarrow> fetch_result \<Rightarrow> int \<Rightarrow> int \<Rightarrow> local_db \<Rightarrow> string + local_db" where
  "uploadOne job fetched now_meta now_synced db =
     (case fetched of
        FetchRejected e \<Rightarrow> Inl e
      | FetchResponse res \<Rightarrow>
          if res_status res = 409
          then Inl (''Conflit serveur (409). revServer='' @
                    (case res_json res of
                       Inr (Some r) \<Rightarrow> show_int r
                     | _ \<Rightarrow> ''?''))
          else if \<not> (200 \<le> res_status res \<and> res_status res \<le> 299)
          then Inl (''HTTP '' @ show_nat (res_status res) @ '' '' @ res_text res)
          else (case res_json res of
                  Inl e \<Rightarrow> Inl e
                | Inr r \<Rightarrow>
                    (case upsertDocMeta now_meta (job_docId job)
                            (\<lambda>m. m\<lparr>revServer := r, lastSyncedAt := Some now_synced\<rparr>) db of
                       Inl e \<Rightarrow> Inl e
                     | Inr (_, db') \<Rightarrow> Inr db')))"

text \<open>
  What the flusher does to the world, newest first: the calls of the \<^verbatim>\<open>onSyncChange\<close>
  callbacks, of \<^verbatim>\<open>fetch\<close> (with the id of the job it uploads), of \<^verbatim>\<open>removeOutbox\<close>,
  of \<^verbatim>\<open>bumpOutboxTry\<close> and of \<^verbatim>\<open>sleep\<close> (in milliseconds).
\<close>

datatype effect =
    Notify bool nat
  | Fetch string fetch_request
  | Removed string
  | Bumped string string
  | Sleep nat

text \<open>
  The module's state and its surroundings: the database, the flags \<^verbatim>\<open>flushing\<close> and
  \<^verbatim>\<open>flushQueued\<close>, \<^verbatim>\<open>navigator.onLine\<close>, and the effects so far. Two counters
  are the model's bookkeeping: \<open>drains\<close>, the drain loops in flight (entered, not yet
  through their \<^verbatim>\<open>finally\<close>), and \<open>reruns\<close>, the calls of \<^verbatim>\<open>flushOutbox\<close> made from
  the \<^verbatim>\<open>finally\<close> block.
\<close>

record client =
  db :: local_db
  flushing :: bool
  flushQueued :: bool
  onLine :: bool
  effects :: "effect list"
  drains :: nat
  reruns :: nat

definition notifySyncChange :: "bool \<Rightarrow> nat \<Rightarrow> client \<Rightarrow> client" where
  "notifySyncChange syncing pending st = st\<lparr>effects := Notify syncing pending # effects st\<rparr>"

text \<open>
  What one tick of the drain loop meets: \<^verbatim>\<open>navigator.onLine\<close> as the loop condition
  reads it, the result of \<^verbatim>\<open>fetch\<close>, and the \<^verbatim>\<open>Date.now()\<close> of the loop's
  \<^verbatim>\<open>upsertDocMeta\<close>, of the one in \<^verbatim>\<open>uploadOne\<close>, and of \<^verbatim>\<open>lastSyncedAt\<close>.
\<close>

record tick =
  net :: bool
  fetched :: fetch_result
  now_loop :: int
  now_upload :: int
  now_synced :: int

text \<open>
  \<^verbatim>\<open>flushOutbox\<close>, lines 57 to 73: from the call to the first notification, taken as
  one step. A call that meets \<^verbatim>\<open>flushing\<close> only sets \<^verbatim>\<open>flushQueued\<close>.
\<close>

definition flush_enter :: "client \<Rightarrow> client" where
  "flush_enter st =
     (if flushing st then st\<lparr>flushQueued := True\<rparr>
      else if \<not> onLine st then notifySyncChange False (length (listOutbox (db st))) st
      else notifySyncChange True (length (listOutbox (db st)))
             (st\<lparr>flushing := True, flushQueued := False, drains := drains st + 1\<rparr>))"

text \<open>
  The \<^verbatim>\<open>catch\<close> of the loop body, lines 83 to 88. \<open>job\<close> is the entry as the listing
  gave it, before the bump; its \<^verbatim>\<open>tries\<close> is a number, so \<^verbatim>\<open>job.tries ?? 1\<close> is
  \<^verbatim>\<open>job.tries\<close>.
\<close>

definition upload_failed :: "OutboxEntry \<Rightarrow> string \<Rightarrow> client \<Rightarrow> client" where
  "upload_failed job msg st =
     st\<lparr>db := bumpOutboxTry (job_id job) msg (db st),
        effects := Sleep (250 * 2 ^ min 6 (max 1 (tries job)))
                   # Bumped (job_id job) msg # effects st\<rparr>"

text \<open>
  The loop body, lines 76 to 91, for \<open>job = jobs[0]\<close>: the \<^verbatim>\<open>try\<close>, its \<^verbatim>\<open>catch\<close>,
  then the new listing and its notification.
\<close>

definition attempt :: "tick \<Rightarrow> OutboxEntry \<Rightarrow> client \<Rightarrow> client" where
  "attempt t job st =
     (let st' =
        (case upsertDocMeta (now_loop t) (job_docId job) (\<lambda>m. m) (db st) of
           Inl e \<Rightarrow> upload_failed job e st
         | Inr (meta, db1) \<Rightarrow>
             (let st1 = st\<lparr>db := db1,
                           effects := Fetch (job_id job) (upload_request job (Some meta))
                                      # effects st\<rparr>
              in case uploadOne job (fetched t) (now_upload t) (now_synced t) db1 of
                   Inl e \<Rightarrow> upload_failed job e st1
                 | Inr db2 \<Rightarrow>
                     st1\<lparr>db := removeOutbox (job_id job) db2,
                         effects := Removed (job_id job) # effects st1\<rparr>))
      in notifySyncChange True (length (listOutbox (db st'))) st')"

text \<open>
  Lines 94 to 101: the last notification, then the \<^verbatim>\<open>finally\<close> block. The call it
  makes is not awaited; it runs up to its first notification.
\<close>

definition flush_leave :: "client \<Rightarrow> client" where
  "flush_leave st =
     (let st1 = notifySyncChange False 0 st;
          st2 = st1\<lparr>flushing := False, drains := drains st1 - 1\<rparr>
      in if flushQueued st2 then flush_enter (st2\<lparr>reruns := reruns st2 + 1\<rparr>) else st2)"

text \<open>
  One evaluation of the loop condition \<^verbatim>\<open>jobs.length > 0 && navigator.onLine\<close>,
  followed by the loop body or by the way out. Nothing but the loop changes the outbox
  between two ticks, so \<^verbatim>\<open>jobs\<close> is the listing of the outbox as it is.
\<close>

definition drain_tick :: "tick \<Rightarrow> client \<Rightarrow> client" where
  "drain_tick t st =
     (let st1 = st\<lparr>onLine := net t\<rparr>
      in case listOutbox (db st1) of
           [] \<Rightarrow> flush_leave st1
         | job # _ \<Rightarrow> if onLine st1 then attempt t job st1 else flush_leave st1)"

text \<open>
  The drain loop of one call, run to its end. With an empty outbox the loop condition
  fails before it reads \<^verbatim>\<open>navigator.onLine\<close>; otherwise each evaluation takes a tick.
  \<open>None\<close>: the ticks run out while jobs remain and the device is online.
\<close>

fun drain :: "tick list \<Rightarrow> client \<Rightarrow> client option" where
  "drain [] st = (if listOutbox (db st) = [] then Some (flush_leave st) else None)"
| "drain (t # ts) st =
     (if listOutbox (db st) = [] then Some (flush_leave st)
      else if net t then drain ts (drain_tick t st)
      else Some (drain_tick t st))"

text \<open>\<^verbatim>\<open>await flushOutbox()\<close>: the state when the promise of the call resolves.\<close>

definition flushOutbox :: "tick list \<Rightarrow> client \<Rightarrow> client option" where
  "flushOutbox ts st =
     (if flushing st \<or> \<not> onLine st then Some (flush_enter st) else drain ts (flush_enter st))"

text \<open>
  The module among other tasks. Between two steps of a drain loop other tasks run: a
  call of \<^verbatim>\<open>flushOutbox\<close>, a change of connectivity. A tick of a drain loop needs a
  drain loop in flight.
\<close>

datatype event = FlushCall | Connectivity bool | DrainTick tick

fun step :: "event \<Rightarrow> client \<Rightarrow> client" where
  "step FlushCall st = flush_enter st"
| "step (Connectivity b) st = st\<lparr>onLine := b\<rparr>"
| "step (DrainTick t) st = (if drains st = 0 then st else drain_tick t st)"

definition run :: "event list \<Rightarrow> client \<Rightarrow> client" where
  "run evs st = fold step evs st"

text \<open>The effects in the order they happened.\<close>

definition trace :: "client \<Rightarrow> effect list" where
  "trace st = rev (effects st)"

section \<open>Frontend: \<^verbatim>\<open>DocPage\<close> in \<^verbatim>\<open>frontend/src/App.tsx\<close> (\<^verbatim>\<open>src/unnamed/part_000\<close>)\<close>

record ConflictInfo =
  serverRev :: int
  serverFilename :: string

text \<open>The texts \<^verbatim>\<open>setStatus\<close> is called with, by the line of the call.\<close>

datatype status_text =
    Chargement                   \<comment> \<open>lines 135 and 287\<close>
  | PasEncoreSurServeur          \<comment> \<open>line 201\<close>
  | ErreurServeur                \<comment> \<open>line 203\<close>
  | Telechargement int           \<comment> \<open>line 214, with the server's revision\<close>
  | MisAJour int                 \<comment> \<open>line 216\<close>
  | ConflitServeur int int       \<comment> \<open>line 220, the server's revision and the local one\<close>
  | AJour int                    \<comment> \<open>line 223\<close>
  | EnvoiVersServeur             \<comment> \<open>line 226\<close>
  | Synchronise                  \<comment> \<open>line 228\<close>
  | ErreurConnexion              \<comment> \<open>line 232\<close>
  | Pret                         \<comment> \<open>lines 297 and 340\<close>
  | TelechargementDepuisServeur  \<comment> \<open>line 321\<close>
  | IntrouvableSurServeur nat    \<comment> \<open>line 344, with the HTTP status\<close>
  | ErreurConnexionServeur       \<comment> \<open>line 350\<close>
  | IntrouvableOuHorsLigne       \<comment> \<open>line 355\<close>
  | IntrouvableHorsLigne         \<comment> \<open>line 364\<close>
  | IntrouvableLocalement        \<comment> \<open>line 365\<close>

text \<open>
  The component's state as one render sees it: a function of the component reads the
  values of the render it was created in. \<open>objectUrl\<close> is the blob the URL stands for.
\<close>

record doc_page =
  objectUrl :: "bytes option"
  page_filename :: string
  page_revLocal :: int
  page_revServer :: "int option"
  page_status :: status_text
  checkingUpdate :: bool
  conflict :: "ConflictInfo option"
  lastSavedBytes :: "bytes option"

datatype page_mode = LocalMode | StableMode

text \<open>
  A request for \<^verbatim>\<open>/api/docs/:docId/meta\<close>: \<^verbatim>\<open>fetch\<close> rejects, or a response with its
  status and what \<^verbatim>\<open>json()\<close> gives, \<open>None\<close> when it rejects, else the \<^verbatim>\<open>filename\<close>
  and the \<^verbatim>\<open>rev\<close> of the body. A request for \<^verbatim>\<open>/api/docs/:docId/file\<close>: \<^verbatim>\<open>fetch\<close> or
  \<^verbatim>\<open>blob()\<close> rejects, or a response with its status and its bytes.
\<close>

datatype meta_fetch = MetaRejected | MetaResponse nat "(string \<times> int) option"

datatype file_fetch = FileRejected | FileResponse nat bytes

definition ok_status :: "nat \<Rightarrow> bool" where
  "ok_status s \<longleftrightarrow> 200 \<le> s \<and> s \<le> 299"

text \<open>
  What a function of the page meets while it runs: the results of its requests, the
  readings of \<^verbatim>\<open>Date.now()\<close> (of \<^verbatim>\<open>addDocFromDrop\<close> and the two calls inside it, and
  of the calls of \<^verbatim>\<open>upsertDocMeta\<close> in \<^verbatim>\<open>load\<close>), the ticks of an awaited flush, and
  the value of \<^verbatim>\<open>cancelled\<close> where \<^verbatim>\<open>load\<close> tests it, numbered in the order of the
  source (lines 290, 303, 317, 326, 335, 360).
\<close>

record page_env =
  meta_fetched :: meta_fetch
  file_fetched :: file_fetch
  now_drop :: int
  now_drop_meta :: int
  now_drop_job :: int
  now_load_first :: int
  now_load_second :: int
  flush_ticks :: "tick list"
  cancelled :: "nat \<Rightarrow> bool"

text \<open>\<^verbatim>\<open>reloadViewer\<close>; \<open>Inl\<close> is the message of what it throws.\<close>

definition reloadViewer :: "string \<Rightarrow> doc_page \<Rightarrow> client \<Rightarrow> string + doc_page" where
  "reloadViewer d ui cl =
     (case getDocBlobLatest d (db cl) of
        Inl e \<Rightarrow> Inl e
      | Inr None \<Rightarrow> Inr ui
      | Inr (Some newBlob) \<Rightarrow> Inr (ui\<lparr>objectUrl := Some newBlob, lastSavedBytes := Some newBlob\<rparr>))"

text \<open>
  \<^verbatim>\<open>downloadServerVersion(serverMeta)\<close>: the message of what it throws, if it
  throws, and the state it leaves.
\<close>

definition downloadServerVersion ::
  "page_env \<Rightarrow> string \<Rightarrow> string \<times> int \<Rightarrow> doc_page \<Rightarrow> client
     \<Rightarrow> string option \<times> doc_page \<times> client" where
  "downloadServerVersion env d serverMeta ui cl =
     (case file_fetched env of
        FileRejected \<Rightarrow> (Some ''fetch'', ui, cl)
      | FileResponse s blob \<Rightarrow>
          if \<not> ok_status s then (Some (''HTTP '' @ show_nat s), ui, cl)
          else (case addDocFromDrop (now_drop env) (now_drop_meta env) (now_drop_job env) d
                       (fst serverMeta, blob) (Some (snd serverMeta)) True (db cl) of
                  Inl e \<Rightarrow> (Some e, ui, cl)
                | Inr db' \<Rightarrow>
                    (let cl' = cl\<lparr>db := db'\<rparr>;
                         ui' = ui\<lparr>page_revLocal := snd serverMeta,
                                  page_revServer := Some (snd serverMeta),
                                  page_filename := fst serverMeta\<rparr>
                     in case reloadViewer d ui' cl' of
                          Inl e \<Rightarrow> (Some e, ui', cl')
                        | Inr ui'' \<Rightarrow> (None, ui'', cl'))))"

text \<open>
  \<^verbatim>\<open>checkForUpdate(autoResolve)\<close>. \<open>None\<close>: the flush it awaits does not end within
  the ticks given. The \<^verbatim>\<open>finally\<close> block resets \<^verbatim>\<open>checkingUpdate\<close>; the \<^verbatim>\<open>catch\<close>
  sets the status of line 232.
\<close>

definition check_done :: "doc_page \<Rightarrow> doc_page" where
  "check_done ui = ui\<lparr>checkingUpdate := False\<rparr>"

definition checkForUpdate ::
  "bool \<Rightarrow> page_env \<Rightarrow> string \<Rightarrow> doc_page \<Rightarrow> client \<Rightarrow> (doc_page \<times> client) option" where
  "checkForUpdate autoResolve env d ui cl =
     (if \<not> onLine cl \<or> checkingUpdate ui then Some (ui, cl)
      else
        (let ui0 = ui\<lparr>checkingUpdate := True\<rparr>
         in case meta_fetched env of
              MetaRejected \<Rightarrow> Some (check_done (ui0\<lparr>page_status := ErreurConnexion\<rparr>), cl)
            | MetaResponse s body \<Rightarrow>
                if \<not> ok_status s
                then (if s = 404
                      then Some (check_done (ui0\<lparr>page_revServer := None,
                                                page_status := PasEncoreSurServeur\<rparr>), cl)
                      else Some (check_done (ui0\<lparr>page_status := ErreurServeur\<rparr>), cl))
                else
                  (case body of
                     None \<Rightarrow> Some (check_done (ui0\<lparr>page_status := ErreurConnexion\<rparr>), cl)
                   | Some (name, rv) \<Rightarrow>
                       (let ui1 = ui0\<lparr>page_revServer := Some rv\<rparr>
                        in if rv > page_revLocal ui
                           then
                             (if autoResolve
                              then
                                (case downloadServerVersion env d (name, rv)
                                        (ui1\<lparr>page_status := Telechargement rv\<rparr>) cl of
                                   (Some e, ui2, cl2) \<Rightarrow>
                                     Some (check_done (ui2\<lparr>page_status := ErreurConnexion\<rparr>),
                                           cl2)
                                 | (None, ui2, cl2) \<Rightarrow>
                                     Some (check_done (ui2\<lparr>page_status := MisAJour rv\<rparr>), cl2))
                              else
                                Some (check_done
                                        (ui1\<lparr>conflict :=
                                                Some \<lparr>serverRev = rv, serverFilename = name\<rparr>,
                                              page_status :=
                                                ConflitServeur rv (page_revLocal ui)\<rparr>), cl))
                           else if rv = page_revLocal ui
                           then Some (check_done (ui1\<lparr>page_status := AJour (page_revLocal ui)\<rparr>),
                                      cl)
                           else
                             (case flushOutbox (flush_ticks env) cl of
                                None \<Rightarrow> None
                              | Some cl' \<Rightarrow>
                                  Some (check_done
                                          ((ui1\<lparr>page_status := EnvoiVersServeur\<rparr>)
                                             \<lparr>page_status := Synchronise\<rparr>),
                                        cl'))))))"

text \<open>
  \<^verbatim>\<open>fetchMetaSafe\<close>: \<^verbatim>\<open>null\<close> when the request rejects or times out, when the
  response is not ok, and when its body cannot be read.
\<close>

definition fetchMetaSafe :: "meta_fetch \<Rightarrow> (string \<times> int) option" where
  "fetchMetaSafe r =
     (case r of
        MetaRejected \<Rightarrow> None
      | MetaResponse s body \<Rightarrow> if \<not> ok_status s then None else body)"

text \<open>
  \<^verbatim>\<open>load\<close> of the page's effect, lines 286 to 367, with the background request of
  lines 300 to 310 run to its end. Where a call throws outside a \<^verbatim>\<open>try\<close> the state is
  the one reached.
\<close>

definition load_not_found :: "page_mode \<Rightarrow> page_env \<Rightarrow> doc_page \<Rightarrow> client \<Rightarrow> doc_page \<times> client" where
  "load_not_found mode env ui cl =
     (if cancelled env 6 then (ui, cl)
      else (ui\<lparr>page_status :=
                 (if mode = StableMode then IntrouvableHorsLigne else IntrouvableLocalement)\<rparr>,
            cl))"

definition load_failed :: "page_mode \<Rightarrow> page_env \<Rightarrow> doc_page \<Rightarrow> client \<Rightarrow> doc_page \<times> client" where
  "load_failed mode env ui cl =
     (if mode = StableMode then (ui\<lparr>page_status := ErreurConnexionServeur\<rparr>, cl)
      else load_not_found mode env ui cl)"

definition load_download ::
  "page_mode \<Rightarrow> page_env \<Rightarrow> string \<Rightarrow> string \<times> int \<Rightarrow> doc_page \<Rightarrow> client \<Rightarrow> doc_page \<times> client" where
  "load_download mode env d serverMeta ui cl =
     (case file_fetched env of
        FileRejected \<Rightarrow> load_failed mode env ui cl
      | FileResponse s blob \<Rightarrow>
          if \<not> ok_status s
          then (if mode = StableMode then (ui\<lparr>page_status := IntrouvableSurServeur s\<rparr>, cl)
                else load_not_found mode env ui cl)
          else if cancelled env 4 then (ui, cl)
          else
            (case addDocFromDrop (now_drop env) (now_drop_meta env) (now_drop_job env) d
                    (fst serverMeta, blob) (Some (snd serverMeta)) True (db cl) of
               Inl e \<Rightarrow> load_failed mode env ui cl
             | Inr db1 \<Rightarrow>
                 (case getDocBlobLatest d db1 of
                    Inl e \<Rightarrow> load_failed mode env ui (cl\<lparr>db := db1\<rparr>)
                  | Inr newLocal \<Rightarrow>
                      (case upsertDocMeta (now_load_second env) d (\<lambda>m. m) db1 of
                         Inl e \<Rightarrow> load_failed mode env ui (cl\<lparr>db := db1\<rparr>)
                       | Inr (newMeta, db2) \<Rightarrow>
                           if cancelled env 5 then (ui, cl\<lparr>db := db2\<rparr>)
                           else
                             (case newLocal of
                                Some content \<Rightarrow>
                                  (ui\<lparr>page_filename := filename newMeta,
                                      page_revLocal := revLocal newMeta,
                                      objectUrl := Some content,
                                      page_status := Pret\<rparr>,
                                   cl\<lparr>db := db2\<rparr>)
                              | None \<Rightarrow> load_not_found mode env ui (cl\<lparr>db := db2\<rparr>))))))"

definition load :: "page_mode \<Rightarrow> page_env \<Rightarrow> string \<Rightarrow> doc_page \<Rightarrow> client \<Rightarrow> doc_page \<times> client" where
  "load mode env d ui cl =
     (let ui0 = ui\<lparr>page_status := Chargement\<rparr>
      in case getDocBlobLatest d (db cl) of
           Inl e \<Rightarrow> (ui0, cl)
         | Inr local \<Rightarrow>
             (case upsertDocMeta (now_load_first env) d (\<lambda>m. m) (db cl) of
                Inl e \<Rightarrow> (ui0, cl)
              | Inr (localMeta, db1) \<Rightarrow>
                  (let cl1 = cl\<lparr>db := db1\<rparr>
                   in if cancelled env 1 then (ui0, cl1)
                      else
                        (case local of
                           Some content \<Rightarrow>
                             (let ui1 = ui0\<lparr>page_filename := filename localMeta,
                                            page_revLocal := revLocal localMeta,
                                            objectUrl := Some content,
                                            page_status := Pret\<rparr>
                              in if \<not> onLine cl then (ui1, cl1)
                                 else
                                   (case fetchMetaSafe (meta_fetched env) of
                                      None \<Rightarrow> (ui1, cl1)
                                    | Some (name, rv) \<Rightarrow>
                                        if cancelled env 2 then (ui1, cl1)
                                        else if rv > revLocal localMeta
                                        then (ui1\<lparr>page_revServer := Some rv,
                                                  conflict :=
                                                    Some \<lparr>serverRev = rv,
                                                          serverFilename = name\<rparr>\<rparr>,
                                              cl1)
                                        else (ui1\<lparr>page_revServer := Some rv\<rparr>, cl1)))
                         | None \<Rightarrow>
                             if \<not> onLine cl then load_not_found mode env ui0 cl1
                             else if cancelled env 3 then (ui0, cl1)
                             else
                               (case fetchMetaSafe (meta_fetched env) of
                                  Some (name, rv) \<Rightarrow>
                                    load_download mode env d (name, rv)
                                      (ui0\<lparr>page_revServer := Some rv,
                                           page_status := TelechargementDepuisServeur\<rparr>)
                                      cl1
                                | None \<Rightarrow>
                                    if mode = StableMode
                                    then (ui0\<lparr>page_status := IntrouvableOuHorsLigne\<rparr>, cl1)
                                    else load_not_found mode env ui0 cl1)))))"

section \<open>Concrete inputs\<close>

text \<open>Concrete inputs for the backend: a server that holds \<open>document1\<close> at revision 3.\<close>

definition example_sha :: "bytes \<Rightarrow> string" where
  "example_sha b = ''digest''"

definition example_row :: DocRow where
  "example_row =
     \<lparr>row_docId = ''document1'', row_filename = ''a.pdf'', row_createdAt = 10,
      row_updatedAt = 20, row_rev = 3, row_sha256 = ''digest'', row_sizeBytes = 2\<rparr>"

definition example_server :: server where
  "example_server =
     \<lparr>index = [''document1'' \<mapsto> example_row], files = [(''document1'', 3) \<mapsto> [1, 2]]\<rparr>"

text \<open>
  The same server with \<open>document1\<close> at revision \<open>2^53\<close>, the last integer up to which
  every integer is a double.
\<close>

definition rounded_server :: server where
  "rounded_server =
     \<lparr>index = [''document1'' \<mapsto> example_row\<lparr>row_rev := 9007199254740992\<rparr>],
      files = [(''document1'', 9007199254740992) \<mapsto> [1, 2]]\<rparr>"

definition example_form :: "string \<Rightarrow> string \<Rightarrow> upload_form" where
  "example_form d r =
     \<lparr>body_docId = Some d, body_filename = Some ''a.pdf'', body_revClient = Some r,
      req_file = Some [7]\<rparr>"

text \<open>
  A client that is online and idle, with two jobs of \<open>document1\<close> in its outbox and no
  meta yet; a client whose copy of \<open>document1\<close> is at revision 3, as the server's was
  when it was last seen, with nothing in its outbox.
\<close>

definition jobA :: OutboxEntry where
  "jobA =
     \<lparr>job_id = ''document1:1'', job_docId = ''document1'', job_rev = 1, job_bytes = [7],
      job_createdAt = 100, tries = 0, lastError = None\<rparr>"

definition jobB :: OutboxEntry where
  "jobB =
     \<lparr>job_id = ''document1:2'', job_docId = ''document1'', job_rev = 2, job_bytes = [8],
      job_createdAt = 200, tries = 0, lastError = None\<rparr>"

definition example_client :: client where
  "example_client =
     \<lparr>db = \<lparr>docs = Map.empty, blobs = Map.empty, outbox = [jobA, jobB]\<rparr>,
      flushing = False, flushQueued = False, onLine = True, effects = [],
      drains = 0, reruns = 0\<rparr>"

definition synced_client :: client where
  "synced_client =
     \<lparr>db = \<lparr>docs = [''document1'' \<mapsto>
                \<lparr>docId = ''document1'', filename = ''a.pdf'', createdAt = 10, updatedAt = 20,
                 revLocal = 3, revServer = Some 3, lastSyncedAt = Some 20\<rparr>],
             blobs = [(''document1'', 3) \<mapsto> [1, 2]], outbox = []\<rparr>,
      flushing = False, flushQueued = False, onLine = True, effects = [],
      drains = 0, reruns = 0\<rparr>"

text \<open>
  A tick that is online and whose upload is answered with the given status and
  \<^verbatim>\<open>revServer\<close>; a tick that finds the device offline.
\<close>

definition tick_status :: "nat \<Rightarrow> int option \<Rightarrow> tick" where
  "tick_status s r =
     \<lparr>net = True, fetched = FetchResponse \<lparr>res_status = s, res_text = [], res_json = Inr r\<rparr>,
      now_loop = 1, now_upload = 2, now_synced = 3\<rparr>"

definition tick_offline :: tick where
  "tick_offline =
     \<lparr>net = False, fetched = FetchRejected ''offline'', now_loop = 1, now_upload = 2,
      now_synced = 3\<rparr>"

text \<open>The request that creates the document of a job whose meta is the fresh one.\<close>

definition post_of :: "OutboxEntry \<Rightarrow> fetch_request" where
  "post_of j =
     \<lparr>req_method = POST, req_url = ApiDocs,
      req_body = \<lparr>body_docId = Some (job_docId j),
                  body_filename = Some (job_docId j @ ''.pdf''),
                  body_revClient = Some (show_int (job_rev j)),
                  req_file = Some (job_bytes j)\<rparr>\<rparr>"

definition put_of :: "OutboxEntry \<Rightarrow> fetch_request" where
  "put_of j =
     \<lparr>req_method = PUT, req_url = ApiDocsId (job_docId j),
      req_body = \<lparr>body_docId = Some (job_docId j),
                  body_filename = Some (job_docId j @ ''.pdf''),
                  body_revClient = Some (show_int (job_rev j)),
                  req_file = Some (job_bytes j)\<rparr>\<rparr>"

text \<open>
  A run in which the first job is refused once with 409, then both jobs are accepted,
  then the loop ends.
\<close>

definition fifo_events :: "event list" where
  "fifo_events =
     [FlushCall, DrainTick (tick_status 409 (Some 3)), DrainTick (tick_status 200 (Some 1)),
      DrainTick (tick_status 200 (Some 2)), DrainTick tick_offline]"

text \<open>
  Two stretches of a drain of that client's outbox. In the first the server refuses the
  first job twice, and a call of \<^verbatim>\<open>flushOutbox\<close> and a loss of connectivity come
  between the two attempts. In the second both jobs are accepted, and two calls come
  between the two uploads.
\<close>

definition refused_then_called :: "event list" where
  "refused_then_called =
     [DrainTick (tick_status 409 (Some 3)), FlushCall, Connectivity False,
      DrainTick (tick_status 409 (Some 3))]"

definition accepted_and_called :: "event list" where
  "accepted_and_called =
     [DrainTick (tick_status 200 (Some 1)), FlushCall, FlushCall,
      DrainTick (tick_status 200 (Some 2))]"

text \<open>A page that shows revision 3, and what it meets when the server is at \<open>rv\<close>.\<close>

definition example_page :: doc_page where
  "example_page =
     \<lparr>objectUrl = None, page_filename = ''document1.pdf'', page_revLocal = 3,
      page_revServer = None, page_status = Chargement, checkingUpdate = False,
      conflict = None, lastSavedBytes = None\<rparr>"

definition example_env :: "int \<Rightarrow> page_env" where
  "example_env rv =
     \<lparr>meta_fetched = MetaResponse 200 (Some (''a.pdf'', rv)),
      file_fetched = FileResponse 200 [9],
      now_drop = 31, now_drop_meta = 32, now_drop_job = 33,
      now_load_first = 30, now_load_second = 34,
      flush_ticks = [tick_status 200 (Some 1), tick_status 200 (Some 2), tick_offline],
      cancelled = (\<lambda>k. False)\<rparr>"

section \<open>Notions used in the proofs\<close>

text \<open>What \<^const>\<open>bumpOutboxTry\<close> does to one entry.\<close>

definition bumped :: "string \<Rightarrow> string \<Rightarrow> OutboxEntry \<Rightarrow> OutboxEntry" where
  "bumped i err j = (if job_id j = i then j\<lparr>tries := tries j + 1, lastError := Some err\<rparr> else j)"

text \<open>
  The message \<^const>\<open>uploadOne\<close> throws before it writes anything, for a result of
  \<^verbatim>\<open>fetch\<close>; \<open>None\<close> when it throws none.
\<close>

definition failure_message :: "fetch_result \<Rightarrow> string option" where
  "failure_message f =
     (case f of
        FetchRejected e \<Rightarrow> Some e
      | FetchResponse res \<Rightarrow>
          if res_status res = 409
          then Some (''Conflit serveur (409). revServer='' @
                     (case res_json res of Inr (Some r) \<Rightarrow> show_int r | _ \<Rightarrow> ''?''))
          else if \<not> (200 \<le> res_status res \<and> res_status res \<le> 299)
          then Some (''HTTP '' @ show_nat (res_status res) @ '' '' @ res_text res)
          else (case res_json res of Inl e \<Rightarrow> Some e | Inr r \<Rightarrow> None))"

text \<open>The meta \<^verbatim>\<open>upsertDocMeta(docId, m => m)\<close> returns.\<close>

definition meta_of :: "int \<Rightarrow> string \<Rightarrow> local_db \<Rightarrow> DocMeta" where
  "meta_of now d ldb =
     (case docs ldb d of
        Some existing \<Rightarrow> existing
      | None \<Rightarrow> \<lparr>docId = d, filename = d @ ''.pdf'', createdAt = now, updatedAt = now,
                 revLocal = 0, revServer = None, lastSyncedAt = None\<rparr>)"

text \<open>The flag \<^verbatim>\<open>flushing\<close> counts the drain loops in flight.\<close>

definition one_drain :: "client \<Rightarrow> bool" where
  "one_drain st \<longleftrightarrow> drains st = (if flushing st then 1 else 0)"

text \<open>
  A stretch of a drain loop that does not end it: every tick of the stretch finds a job
  in the outbox and the device online, so that the body of the loop runs once more.
  Calls of \<^verbatim>\<open>flushOutbox\<close> and changes of connectivity come between the ticks, in any
  number and at any place.
\<close>

fun drain_continues :: "event list \<Rightarrow> client \<Rightarrow> bool" where
  "drain_continues [] st = True"
| "drain_continues (FlushCall # es) st = drain_continues es (step FlushCall st)"
| "drain_continues (Connectivity b # es) st = drain_continues es (step (Connectivity b) st)"
| "drain_continues (DrainTick t # es) st =
     (listOutbox (db st) \<noteq> [] \<and> net t \<and> drain_continues es (step (DrainTick t) st))"

text \<open>
  Effects, newest first, in which every upload comes after the removal of each job of
  \<open>init\<close> created before the uploaded one, and every removal comes right after an
  upload of the same job.
\<close>

fun ordered :: "OutboxEntry list \<Rightarrow> effect list \<Rightarrow> bool" where
  "ordered init [] = True"
| "ordered init (e # older) =
     (ordered init older \<and>
      (case e of
         Fetch i _ \<Rightarrow>
           (\<forall>a\<in>set init. \<forall>b\<in>set init.
              job_id b = i \<and> job_createdAt a < job_createdAt b
                \<longrightarrow> Removed (job_id a) \<in> set older)
       | Removed i \<Rightarrow> (\<exists>req older'. older = Fetch i req # older')
       | _ \<Rightarrow> True))"

text \<open>
  The outbox holds jobs of \<open>init\<close> only (by id and creation time), and every job of
  \<open>init\<close> that no effect removed.
\<close>

definition tracked :: "OutboxEntry list \<Rightarrow> client \<Rightarrow> bool" where
  "tracked init st \<longleftrightarrow>
     (\<forall>j\<in>set (outbox (db st)). \<exists>b\<in>set init.
        job_id b = job_id j \<and> job_createdAt b = job_createdAt j)
   \<and> (\<forall>a\<in>set init. Removed (job_id a) \<notin> set (effects st) \<longrightarrow>
        (\<exists>a'\<in>set (outbox (db st)). job_id a' = job_id a \<and> job_createdAt a' = job_createdAt a))"

definition fifo_inv :: "OutboxEntry list \<Rightarrow> client \<Rightarrow> bool" where
  "fifo_inv init st \<longleftrightarrow> tracked init st \<and> ordered init (effects st)"

section \<open>Backend: properties\<close>

lemmas parse_defs =
  parseIntField_def parseInt10_def toNumber_def bit_length.simps isStrWhiteSpace_def
  isDigit_def digitsVal_def digitVal_def

lemmas upload_defs =
  post_docs_def put_doc_def post_docs_handler_def put_doc_handler_def assertDocId_def
  store_revision_def getDoc_def upsertDoc_def

lemma validDocId_document1: "validDocId ''document1''"
  by (simp add: validDocId_def docIdChar_def)

lemma validDocId_document2: "validDocId ''document2''"
  by (simp add: validDocId_def docIdChar_def)

lemma not_validDocId_short: "\<not> validDocId ''short''"
  by (simp add: validDocId_def)

text \<open>
  What \<^verbatim>\<open>parseIntField\<close> makes of a text. Up to \<open>2^53\<close> the Number of an integer is
  the integer, so that the decimal text \<^verbatim>\<open>String(k)\<close>, which the client sends as
  \<^verbatim>\<open>revClient\<close>, is read back as \<open>k\<close>.
\<close>

lemma toNumber_exact: "n \<le> 2 ^ 53 \<Longrightarrow> toNumber n = Some n"
proof (cases "n < 2 ^ 53")
  case True
  then show ?thesis by (simp add: toNumber_def)
next
  case False
  assume "n \<le> 2 ^ 53"
  with False have "n = 2 ^ 53" by simp
  then show ?thesis by (simp add: toNumber_def bit_length.simps)
qed

lemma bit_length_bounds:
  "n < 2 ^ bit_length n \<and> (0 < n \<longrightarrow> 2 ^ (bit_length n - 1) \<le> n)"
proof (induction n rule: bit_length.induct)
  case (1 n)
  show ?case
  proof (cases "n = 0")
    case True
    then show ?thesis by (simp add: bit_length.simps)
  next
    case False
    then have bl: "bit_length n = Suc (bit_length (n div 2))"
      by (subst bit_length.simps) simp
    from "1.IH" [OF False] have up: "n div 2 < 2 ^ bit_length (n div 2)"
      and lo: "0 < n div 2 \<longrightarrow> 2 ^ (bit_length (n div 2) - 1) \<le> n div 2"
      by simp_all
    have a: "n < 2 ^ bit_length n"
      using up by (simp add: bl)
    have b: "2 ^ (bit_length n - 1) \<le> n"
    proof (cases "n div 2 = 0")
      case True
      with False have "n = 1" by linarith
      then show ?thesis by (simp add: bit_length.simps)
    next
      case nz: False
      then have pos: "0 < bit_length (n div 2)"
        by (subst bit_length.simps) simp
      from nz lo have "2 ^ (bit_length (n div 2) - 1) \<le> n div 2"
        by simp
      then have "2 * 2 ^ (bit_length (n div 2) - 1) \<le> n"
        by linarith
      moreover have "2 * 2 ^ (bit_length (n div 2) - 1) = (2::nat) ^ bit_length (n div 2)"
        using pos by (cases "bit_length (n div 2)") simp_all
      ultimately show ?thesis
        by (simp add: bl)
    qed
    from a b show ?thesis by simp
  qed
qed

text \<open>
  The Number of \<open>n\<close> is a double and is nearest to \<open>n\<close>: a significand \<open>q\<close> of at most
  53 bits times a power of two, below \<open>2^1024\<close>, at most half a unit of its last place
  away from \<open>n\<close>.
\<close>

lemma toNumber_nearest:
  assumes "toNumber n = Some m"
  shows "\<exists>q e. m = q * 2 ^ e \<and> q \<le> 2 ^ 53 \<and> m < 2 ^ 1024
           \<and> 2 * n \<le> 2 * m + 2 ^ e \<and> 2 * m \<le> 2 * n + 2 ^ e
           \<and> (n \<le> 2 ^ 53 \<longrightarrow> m = n)"
proof (cases "n < 2 ^ 53")
  case True
  with assms have "m = n"
    by (simp add: toNumber_def)
  moreover from True have "n < 2 ^ 1024"
    by (rule less_le_trans) simp
  ultimately show ?thesis
    using True by (intro exI [of _ n] exI [of _ 0]) simp
next
  case False
  define e where "e = bit_length n - 53"
  define q where "q = n div 2 ^ e"
  define r where "r = n mod 2 ^ e"
  define q' where "q' = (if 2 ^ (e - 1) < r \<or> (r = 2 ^ (e - 1) \<and> odd q) then q + 1 else q)"
  have tn: "toNumber n = (if 2 ^ 1024 \<le> q' * 2 ^ e then None else Some (q' * 2 ^ e))"
    using False by (simp only: toNumber_def Let_def e_def q_def r_def q'_def if_False)
  have both: "\<not> 2 ^ 1024 \<le> q' * 2 ^ e \<and> m = q' * 2 ^ e"
  proof (cases "(2::nat) ^ 1024 \<le> q' * 2 ^ e")
    case True
    with assms tn have "None = Some m"
      by (simp only: if_True)
    then show ?thesis
      by (simp only: option.distinct)
  next
    case False
    with assms tn have "Some (q' * 2 ^ e) = Some m"
      by (simp only: if_False)
    then have "q' * 2 ^ e = m"
      by (simp only: option.inject)
    with False show ?thesis
      by blast
  qed
  then have m: "m = q' * 2 ^ e" and fin: "m < 2 ^ 1024"
    by (simp_all only: not_le)
  have n: "n = q * 2 ^ e + r"
    unfolding q_def r_def by (rule div_mult_mod_eq [symmetric])
  have r: "r < 2 ^ e"
    by (simp add: r_def)
  have "\<not> bit_length n \<le> 53"
  proof
    assume "bit_length n \<le> 53"
    then have "(2::nat) ^ bit_length n \<le> 2 ^ 53"
      by (rule power_increasing) simp
    with bit_length_bounds [of n] False show False
      by linarith
  qed
  then have e1: "0 < e" and be: "bit_length n = 53 + e"
    by (simp_all add: e_def)
  have "n < 2 ^ 53 * 2 ^ e"
    using bit_length_bounds [of n] by (simp only: be power_add)
  then have q: "q < 2 ^ 53"
    unfolding q_def by (rule less_mult_imp_div_less)
  have half: "2 * 2 ^ (e - 1) = (2::nat) ^ e"
    using e1 by (cases e) simp_all
  have q'le: "q' \<le> 2 ^ 53"
    using q by (simp add: q'_def)
  have near: "2 * n \<le> 2 * m + 2 ^ e \<and> 2 * m \<le> 2 * n + 2 ^ e"
  proof (cases "2 ^ (e - 1) < r \<or> (r = 2 ^ (e - 1) \<and> odd q)")
    case True
    then have "q' = q + 1"
      by (simp add: q'_def)
    then have "m = q * 2 ^ e + 2 ^ e"
      by (simp add: m algebra_simps)
    with n r True half show ?thesis
      by linarith
  next
    case False
    then have "q' = q"
      by (simp add: q'_def)
    then have "m = q * 2 ^ e"
      by (simp add: m)
    with n r False half show ?thesis
      by linarith
  qed
  have ex: "n \<le> 2 ^ 53 \<longrightarrow> m = n"
    using assms toNumber_exact [of n] by auto
  from m q'le fin near ex show ?thesis
    by blast
qed

lemma digit_char:
  assumes "d < 10"
  shows "isDigit (''0123456789'' ! d)" and "digitVal (''0123456789'' ! d) = d"
    and "\<not> isStrWhiteSpace (''0123456789'' ! d)"
    and "''0123456789'' ! d \<noteq> CHR ''-''" and "''0123456789'' ! d \<noteq> CHR ''+''"
proof -
  from assms have "d \<in> {0, 1, 2, 3, 4, 5, 6, 7, 8, 9}"
    by auto
  then show "isDigit (''0123456789'' ! d)" and "digitVal (''0123456789'' ! d) = d"
    and "\<not> isStrWhiteSpace (''0123456789'' ! d)"
    and "''0123456789'' ! d \<noteq> CHR ''-''" and "''0123456789'' ! d \<noteq> CHR ''+''"
    by (auto simp: isDigit_def digitVal_def isStrWhiteSpace_def)
qed

lemma digitsVal_snoc: "digitsVal (ds @ [c]) = 10 * digitsVal ds + digitVal c"
  by (simp add: digitsVal_def)

lemma show_nat_digits:
  "show_nat n \<noteq> [] \<and> list_all isDigit (show_nat n) \<and> digitsVal (show_nat n) = n
   \<and> \<not> isStrWhiteSpace (hd (show_nat n)) \<and> hd (show_nat n) \<noteq> CHR ''-''
   \<and> hd (show_nat n) \<noteq> CHR ''+''"
proof (induction n rule: show_nat.induct)
  case (1 n)
  show ?case
  proof (cases "n < 10")
    case True
    then have "show_nat n = [''0123456789'' ! n]"
      by (subst show_nat.simps) simp
    with digit_char [OF True] show ?thesis
      by (simp add: digitsVal_def)
  next
    case False
    then have eq: "show_nat n = show_nat (n div 10) @ [''0123456789'' ! (n mod 10)]"
      by (subst show_nat.simps) simp
    have m: "n mod 10 < 10"
      by simp
    from "1.IH" [OF False] digit_char [OF m] show ?thesis
      by (simp add: eq digitsVal_snoc)
  qed
qed

lemma parseInt10_digits:
  assumes "ds \<noteq> []" and "list_all isDigit ds" and "\<not> isStrWhiteSpace (hd ds)"
    and "hd ds \<noteq> CHR ''-''" and "hd ds \<noteq> CHR ''+''" and "digitsVal ds \<le> 2 ^ 53"
  shows "parseInt10 ds = Finite (int (digitsVal ds))"
    and "parseInt10 (CHR ''-'' # ds) = Finite (- int (digitsVal ds))"
proof -
  from assms(1) obtain c r where ds: "ds = c # r"
    by (cases ds) auto
  have tw: "takeWhile isDigit ds = ds"
    using assms(2) by (simp add: takeWhile_eq_all_conv list_all_iff)
  have ws: "\<not> isStrWhiteSpace (CHR ''-'')"
    by (simp add: isStrWhiteSpace_def)
  have tw': "takeWhile isDigit r = r"
    using assms(2) by (simp add: takeWhile_eq_all_conv list_all_iff ds)
  show "parseInt10 ds = Finite (int (digitsVal ds))"
    using assms toNumber_exact [OF assms(6)] by (simp add: parseInt10_def ds tw')
  show "parseInt10 (CHR ''-'' # ds) = Finite (- int (digitsVal ds))"
    using assms(1) ws toNumber_exact [OF assms(6)] by (simp add: parseInt10_def tw)
qed

lemma parseIntField_show_int:
  assumes "\<bar>k\<bar> \<le> 2 ^ 53"
  shows "parseIntField name (Some (show_int k)) = Inr k"
proof -
  let ?m = "nat \<bar>k\<bar>"
  have le: "digitsVal (show_nat ?m) \<le> 2 ^ 53"
    using assms show_nat_digits [of ?m] by (simp add: nat_le_iff)
  note d = show_nat_digits [of ?m]
  have p: "parseInt10 (show_nat ?m) = Finite (int (digitsVal (show_nat ?m)))"
    and n: "parseInt10 (CHR ''-'' # show_nat ?m) = Finite (- int (digitsVal (show_nat ?m)))"
    using parseInt10_digits [of "show_nat ?m"] d le by simp_all
  show ?thesis
  proof (cases "k < 0")
    case True
    then have "show_int k = CHR ''-'' # show_nat ?m"
      by (simp add: show_int_def abs_if)
    with n d True show ?thesis
      by (simp add: parseIntField_def)
  next
    case False
    then have "show_int k = show_nat ?m"
      by (simp add: show_int_def abs_if)
    with p d False show ?thesis
      by (simp add: parseIntField_def)
  qed
qed

text \<open>
  Beyond \<open>2^53\<close> the digits are rounded to the nearest double, ties to the even
  significand; a run of 310 digits is \<^verbatim>\<open>Infinity\<close>, which is refused as \<^verbatim>\<open>NaN\<close> is;
  a no-break space before the digits is skipped as the other white space is.
\<close>

lemma parseIntField_nearest_double:
  "parseIntField ''revClient'' (Some ''9007199254740993'') = Inr 9007199254740992
   \<and> parseIntField ''revClient'' (Some ''9007199254740995'') = Inr 9007199254740996
   \<and> parseIntField ''revClient'' (Some ''-9007199254740993'') = Inr (- 9007199254740992)
   \<and> parseIntField ''revClient'' (Some ''18446744073709551615'') = Inr 18446744073709551616"
  by (simp add: parse_defs)

lemma toNumber_overflow:
  "toNumber (2 ^ 1024 - 2 ^ 970 - 1) = Some (2 ^ 1024 - 2 ^ 971)
   \<and> toNumber (2 ^ 1024 - 2 ^ 970) = None"
  by (simp add: toNumber_def bit_length.simps)

lemma parseIntField_infinity:
  "parseIntField ''revClient''
     (Some ''1000000000000000000000000000000000000000000000000000000000000000000000000000000000000000000000000000000000000000000000000000000000000000000000000000000000000000000000000000000000000000000000000000000000000000000000000000000000000000000000000000000000000000000000000000000000000000000000000000000000000000000000'')
   = Inl \<lparr>message = ''Champ invalide: revClient'', err_status = Some 400\<rparr>"
  by (simp add: parse_defs)

lemma parseIntField_white_space:
  "parseIntField ''revClient'' (Some (char_of (160 :: nat) # '' +0042abc'')) = Inr 42
   \<and> parseIntField ''revClient'' (Some ''abc'')
       = Inl \<lparr>message = ''Champ invalide: revClient'', err_status = Some 400\<rparr>"
  by (simp add: parse_defs)

text \<open>
  An upload whose \<^verbatim>\<open>revClient\<close> is no finite number is answered 400 and changes
  nothing, whether a row exists or not.
\<close>

lemma revClient_not_finite_rejected:
  assumes "parseIntField ''revClient'' (body_revClient form) = Inl e"
  shows "post_docs sha now form st
           = (Sent (Response 400 (ErrorJson ''Champ invalide: revClient'')), st)"
    and "validDocId d \<Longrightarrow> put_doc sha now d form st
           = (Sent (Response 400 (ErrorJson ''Champ invalide: revClient'')), st)"
proof -
  from assms have e: "e = \<lparr>message = ''Champ invalide: revClient'', err_status = Some 400\<rparr>"
    by (auto simp: parseIntField_def split: js_number.splits option.splits)
  show "post_docs sha now form st
           = (Sent (Response 400 (ErrorJson ''Champ invalide: revClient'')), st)"
    using assms e by (simp add: upload_defs error_handler_def)
  show "validDocId d \<Longrightarrow> put_doc sha now d form st
           = (Sent (Response 400 (ErrorJson ''Champ invalide: revClient'')), st)"
    using assms e by (simp add: upload_defs error_handler_def)
qed

text \<open>
  C1. A document has a row at revision \<open>N = row_rev ex\<close>, and a well-formed upload (a
  valid docId, a file, a \<^verbatim>\<open>revClient\<close> that \<^verbatim>\<open>parseIntField\<close> reads as the finite
  Number \<open>k\<close>) arrives at \<^verbatim>\<open>POST /api/docs\<close> or at \<^verbatim>\<open>PUT /api/docs/:docId\<close>. The
  answer is 200 exactly when \<open>N < k\<close>; then the row's revision is \<open>k\<close>; otherwise the
  answer is 409 with \<^verbatim>\<open>revServer = N\<close> and the server's state is as before. The
  revision proposed is the Number \<open>k\<close>, not the digits sent: up to \<open>2^53\<close> the two are
  the same (\<open>parseIntField_show_int\<close>); beyond, \<open>k\<close> is the nearest double, so that the
  digits of \<open>2^53 + 1\<close> are read as \<open>2^53\<close> and are refused by a row at \<open>2^53\<close>.
\<close>

theorem upload_accepted_iff_strictly_newer:
  assumes "getDoc (index st) d = Some ex"
    and "validDocId d"
    and "body_docId form = Some d"
    and "req_file form = Some buf"
    and "parseIntField ''revClient'' (body_revClient form) = Inr k"
  shows "(status_of (fst (post_docs sha now form st)) = Some 200 \<longleftrightarrow> row_rev ex < k)
       \<and> (status_of (fst (put_doc sha now d form st)) = Some 200 \<longleftrightarrow> row_rev ex < k)
       \<and> (row_rev ex < k \<longrightarrow>
             current_rev (snd (post_docs sha now form st)) d = Some k
           \<and> current_rev (snd (put_doc sha now d form st)) d = Some k)
       \<and> (\<not> row_rev ex < k \<longrightarrow>
             post_docs sha now form st = (Sent (Response 409 (ConflictJson (row_rev ex))), st)
           \<and> put_doc sha now d form st = (Sent (Response 409 (ConflictJson (row_rev ex))), st))"
  using assms by (auto simp: upload_defs status_of_def current_rev_def)

theorem upload_accepted_iff_strictly_newer_witness:
  "getDoc (index example_server) ''document1'' = Some example_row
   \<and> validDocId ''document1''
   \<and> parseIntField ''revClient'' (body_revClient (example_form ''document1'' ''4'')) = Inr 4
   \<and> parseIntField ''revClient'' (body_revClient (example_form ''document1'' ''3'')) = Inr 3
   \<and> status_of (fst (post_docs example_sha 30 (example_form ''document1'' ''4'') example_server))
       = Some 200
   \<and> current_rev
        (snd (put_doc example_sha 30 ''document1'' (example_form ''document1'' ''4'')
           example_server)) ''document1'' = Some 4
   \<and> post_docs example_sha 30 (example_form ''document1'' ''3'') example_server
       = (Sent (Response 409 (ConflictJson 3)), example_server)
   \<and> getDoc (index rounded_server) ''document1''
       = Some (example_row\<lparr>row_rev := 9007199254740992\<rparr>)
   \<and> parseIntField ''revClient''
        (body_revClient (example_form ''document1'' ''9007199254740993''))
       = Inr 9007199254740992
   \<and> post_docs example_sha 30 (example_form ''document1'' ''9007199254740993'') rounded_server
       = (Sent (Response 409 (ConflictJson 9007199254740992)), rounded_server)
   \<and> put_doc example_sha 30 ''document1'' (example_form ''document1'' ''9007199254740993'')
        rounded_server
       = (Sent (Response 409 (ConflictJson 9007199254740992)), rounded_server)"
proof -
  have row: "getDoc (index example_server) ''document1'' = Some example_row"
    by (simp add: example_server_def getDoc_def)
  have big: "getDoc (index rounded_server) ''document1''
      = Some (example_row\<lparr>row_rev := 9007199254740992\<rparr>)"
    by (simp add: rounded_server_def getDoc_def)
  have p4: "parseIntField ''revClient'' (body_revClient (example_form ''document1'' ''4'')) = Inr 4"
    by (simp add: example_form_def parse_defs)
  have p3: "parseIntField ''revClient'' (body_revClient (example_form ''document1'' ''3'')) = Inr 3"
    by (simp add: example_form_def parse_defs)
  have pr: "parseIntField ''revClient''
        (body_revClient (example_form ''document1'' ''9007199254740993''))
      = Inr 9007199254740992"
    by (simp add: example_form_def parse_defs)
  have d: "body_docId (example_form ''document1'' r) = Some ''document1''" for r
    by (simp add: example_form_def)
  have f: "req_file (example_form ''document1'' r) = Some [7]" for r
    by (simp add: example_form_def)
  have rev3: "row_rev example_row = 3"
    by (simp add: example_row_def)
  have small: "status_of (fst (post_docs example_sha 30 (example_form ''document1'' ''4'')
          example_server)) = Some 200
      \<and> current_rev
           (snd (put_doc example_sha 30 ''document1'' (example_form ''document1'' ''4'')
              example_server)) ''document1'' = Some 4
      \<and> post_docs example_sha 30 (example_form ''document1'' ''3'') example_server
          = (Sent (Response 409 (ConflictJson 3)), example_server)"
    using rev3
      upload_accepted_iff_strictly_newer [OF row validDocId_document1 d f p4,
        of example_sha 30]
      upload_accepted_iff_strictly_newer [OF row validDocId_document1 d f p3,
        of example_sha 30]
    by simp
  have rounded: "post_docs example_sha 30 (example_form ''document1'' ''9007199254740993'')
        rounded_server
          = (Sent (Response 409 (ConflictJson 9007199254740992)), rounded_server)
      \<and> put_doc example_sha 30 ''document1'' (example_form ''document1'' ''9007199254740993'')
           rounded_server
          = (Sent (Response 409 (ConflictJson 9007199254740992)), rounded_server)"
    using upload_accepted_iff_strictly_newer [OF big validDocId_document1 d f pr,
        of example_sha 30]
    by simp
  from row validDocId_document1 p4 p3 small big pr rounded show ?thesis
    by blast
qed

text \<open>
  C9. No row exists for a valid docId: \<^verbatim>\<open>POST /api/docs\<close> with a file answers 200 for
  every finite Number \<open>k\<close> that \<^verbatim>\<open>parseIntField\<close> reads \<^verbatim>\<open>revClient\<close> as, zero and the
  negative ones included, and the new row holds \<open>k\<close> as its revision. The comparison with
  the stored revision is made only in the branch where a row exists. What is stored is
  the Number: the integer the digits denote up to \<open>2^53\<close>, the nearest double beyond;
  digits that overflow to \<^verbatim>\<open>Infinity\<close> are not a parsed integer and are answered 400
  (\<open>revClient_not_finite_rejected\<close>).
\<close>

theorem first_creation_accepts_any_revision:
  assumes "getDoc (index st) d = None"
    and "validDocId d"
    and "body_docId form = Some d"
    and "req_file form = Some buf"
    and "parseIntField ''revClient'' (body_revClient form) = Inr k"
  shows "fst (post_docs sha now form st) = Sent (Response 200 (CreatedJson d k (''/d/'' @ d)))
       \<and> current_rev (snd (post_docs sha now form st)) d = Some k"
  using assms by (auto simp: upload_defs current_rev_def)

theorem first_creation_accepts_any_revision_witness:
  "getDoc (index example_server) ''document2'' = None
   \<and> validDocId ''document2''
   \<and> parseIntField ''revClient'' (body_revClient (example_form ''document2'' ''-5'')) = Inr (- 5)
   \<and> parseIntField ''revClient'' (body_revClient (example_form ''document2'' ''0'')) = Inr 0
   \<and> parseIntField ''revClient''
        (body_revClient (example_form ''document2'' ''9007199254740993''))
       = Inr 9007199254740992
   \<and> current_rev
        (snd (post_docs example_sha 30 (example_form ''document2'' ''-5'') example_server))
        ''document2'' = Some (- 5)
   \<and> current_rev
        (snd (post_docs example_sha 30 (example_form ''document2'' ''0'') example_server))
        ''document2'' = Some 0
   \<and> fst (post_docs example_sha 30 (example_form ''document2'' ''9007199254740993'')
          example_server)
       = Sent (Response 200 (CreatedJson ''document2'' 9007199254740992 ''/d/document2''))
   \<and> current_rev
        (snd (post_docs example_sha 30 (example_form ''document2'' ''9007199254740993'')
           example_server))
        ''document2'' = Some 9007199254740992"
proof -
  have none: "getDoc (index example_server) ''document2'' = None"
    by (simp add: example_server_def getDoc_def)
  have pm5: "parseIntField ''revClient'' (body_revClient (example_form ''document2'' ''-5''))
      = Inr (- 5)"
    by (simp add: example_form_def parse_defs)
  have p0: "parseIntField ''revClient'' (body_revClient (example_form ''document2'' ''0'')) = Inr 0"
    by (simp add: example_form_def parse_defs)
  have pr: "parseIntField ''revClient''
        (body_revClient (example_form ''document2'' ''9007199254740993''))
      = Inr 9007199254740992"
    by (simp add: example_form_def parse_defs)
  have d: "body_docId (example_form ''document2'' r) = Some ''document2''" for r
    by (simp add: example_form_def)
  have f: "req_file (example_form ''document2'' r) = Some [7]" for r
    by (simp add: example_form_def)
  have stored: "current_rev
        (snd (post_docs example_sha 30 (example_form ''document2'' ''-5'') example_server))
        ''document2'' = Some (- 5)
      \<and> current_rev
        (snd (post_docs example_sha 30 (example_form ''document2'' ''0'') example_server))
        ''document2'' = Some 0
      \<and> fst (post_docs example_sha 30 (example_form ''document2'' ''9007199254740993'')
          example_server)
       = Sent (Response 200 (CreatedJson ''document2'' 9007199254740992 ''/d/document2''))
      \<and> current_rev
        (snd (post_docs example_sha 30 (example_form ''document2'' ''9007199254740993'')
           example_server))
        ''document2'' = Some 9007199254740992"
    using
      first_creation_accepts_any_revision [OF none validDocId_document2 d f pm5,
        of example_sha 30]
      first_creation_accepts_any_revision [OF none validDocId_document2 d f p0,
        of example_sha 30]
      first_creation_accepts_any_revision [OF none validDocId_document2 d f pr,
        of example_sha 30]
    by simp
  from none validDocId_document2 pm5 p0 pr stored show ?thesis
    by blast
qed

text \<open>
  The three endpoints whose handler is synchronous, or catches and calls \<^verbatim>\<open>next(e)\<close>,
  answer 400 to a docId that does not match the pattern, whatever the index holds, and
  leave the server's state as it was.
\<close>

lemma invalid_docId_rejected_where_caught:
  assumes "\<not> validDocId d" and "body_docId form = Some d"
  shows "status_of (get_meta d st) = Some 400"
    and "status_of (fst (post_docs sha now form st)) = Some 400"
    and "snd (post_docs sha now form st) = st"
    and "put_doc sha now d form st
           = (Sent (Response 400 (ErrorJson ''docId invalide'')), st)"
  using assms
  by (auto simp: get_meta_def get_meta_handler_def run_sync_def error_handler_def
      status_of_def upload_defs parseIntField_def split: option.splits js_number.splits)

text \<open>
  C8. \<^verbatim>\<open>GET /api/docs/:docId/file\<close> with the docId \<open>short\<close>, which does not match the
  pattern: \<^verbatim>\<open>assertDocId\<close> throws inside the \<^verbatim>\<open>async\<close> handler, which has no
  \<^verbatim>\<open>try\<close>, so the error with status 400 rejects the handler's promise and no response
  is written, where the other three endpoints answer 400.
\<close>

theorem get_file_invalid_docId_unhandled:
  "get_file ''short'' st = Unhandled \<lparr>message = ''docId invalide'', err_status = Some 400\<rparr>
   \<and> status_of (get_file ''short'' st) = None
   \<and> status_of (get_meta ''short'' st) = Some 400"
  using not_validDocId_short
  by (simp add: get_file_def get_file_handler_def run_async_def assertDocId_def status_of_def
      get_meta_def get_meta_handler_def run_sync_def error_handler_def)

section \<open>Frontend: the outbox and one tick of the drain loop\<close>

lemma insort_key_map_same:
  assumes "\<And>x. f (g x) = f x"
  shows "insort_key f (g x) (map g ys) = map g (insort_key f x ys)"
  by (induction ys) (simp_all add: assms)

lemma sort_key_map_same:
  assumes "\<And>x. f (g x) = f x"
  shows "sort_key f (map g xs) = map g (sort_key f xs)"
  by (induction xs) (simp_all add: insort_key_map_same assms)

lemma listOutbox_bump:
  "listOutbox (bumpOutboxTry i err ldb) = map (bumped i err) (listOutbox ldb)"
proof -
  have "job_createdAt (bumped i err j) = job_createdAt j" for j
    by (simp add: bumped_def)
  then have "sort_key job_createdAt (map (bumped i err) (outbox ldb))
      = map (bumped i err) (sort_key job_createdAt (outbox ldb))"
    by (rule sort_key_map_same)
  moreover have "outbox (bumpOutboxTry i err ldb) = map (bumped i err) (outbox ldb)"
    by (simp add: bumpOutboxTry_def bumped_def)
  ultimately show ?thesis
    by (simp add: listOutbox_def)
qed

lemma listOutbox_remove:
  "listOutbox (removeOutbox i ldb) = filter (\<lambda>j. job_id j \<noteq> i) (listOutbox ldb)"
  by (simp add: listOutbox_def removeOutbox_def filter_sort)

lemma set_listOutbox [simp]: "set (listOutbox ldb) = set (outbox ldb)"
  by (simp add: listOutbox_def)

lemma length_listOutbox [simp]: "length (listOutbox ldb) = length (outbox ldb)"
  by (simp add: listOutbox_def)

lemma listOutbox_head_oldest:
  assumes "listOutbox ldb = b # rest" and "a \<in> set (outbox ldb)"
  shows "job_createdAt b \<le> job_createdAt a"
proof -
  have "sorted (map job_createdAt (listOutbox ldb))"
    by (simp add: listOutbox_def)
  moreover have "a \<in> set (listOutbox ldb)"
    using assms(2) by simp
  ultimately show ?thesis
    using assms(1) by auto
qed

lemma length_outbox_bump [simp]:
  "length (outbox (bumpOutboxTry i err ldb)) = length (outbox ldb)"
  by (simp add: bumpOutboxTry_def)

lemma attempt_flags [simp]:
  "flushing (attempt t job st) = flushing st"
  "flushQueued (attempt t job st) = flushQueued st"
  "onLine (attempt t job st) = onLine st"
  "drains (attempt t job st) = drains st"
  "reruns (attempt t job st) = reruns st"
  by (simp_all add: attempt_def upload_failed_def notifySyncChange_def Let_def
      split: sum.splits prod.splits)

lemma upsertDocMeta_identity:
  "validDocId d \<Longrightarrow>
   upsertDocMeta now d (\<lambda>m. m) ldb =
     Inr (meta_of now d ldb,
          ldb\<lparr>docs := (docs ldb)(docId (meta_of now d ldb) \<mapsto> meta_of now d ldb)\<rparr>)"
  by (simp add: upsertDocMeta_def ensureDocId_def meta_of_def Let_def)

lemma upsertDocMeta_invalid:
  "\<not> validDocId d \<Longrightarrow> upsertDocMeta now d fn ldb = Inl ''docId invalide.''"
  by (simp add: upsertDocMeta_def ensureDocId_def)

lemma uploadOne_failure:
  "failure_message f = Some msg \<Longrightarrow> uploadOne job f a b ldb = Inl msg"
  by (auto simp: uploadOne_def failure_message_def split: fetch_result.splits sum.splits if_splits)

lemma uploadOne_success:
  "failure_message f = None \<Longrightarrow> validDocId (job_docId job) \<Longrightarrow>
   \<exists>ldb2. uploadOne job f a b ldb = Inr ldb2 \<and> outbox ldb2 = outbox ldb"
  by (auto simp: uploadOne_def failure_message_def upsertDocMeta_def ensureDocId_def Let_def
      split: fetch_result.splits sum.splits if_splits)

text \<open>
  The three ways the loop body ends for a job: its upload fails (the request was sent),
  its upload succeeds, or its docId is refused before any request is sent.
\<close>

lemma attempt_failure:
  assumes "validDocId (job_docId job)" and "failure_message (fetched t) = Some msg"
  shows "effects (attempt t job st) =
           Notify True (length (outbox (db st)))
           # Sleep (250 * 2 ^ min 6 (max 1 (tries job)))
           # Bumped (job_id job) msg
           # Fetch (job_id job) (upload_request job (Some (meta_of (now_loop t) (job_docId job) (db st))))
           # effects st"
    and "listOutbox (db (attempt t job st)) = map (bumped (job_id job) msg) (listOutbox (db st))"
proof -
  let ?db1 = "(db st)\<lparr>docs := (docs (db st))(docId (meta_of (now_loop t) (job_docId job) (db st))
      \<mapsto> meta_of (now_loop t) (job_docId job) (db st))\<rparr>"
  have up: "uploadOne job (fetched t) (now_upload t) (now_synced t) ?db1 = Inl msg"
    using assms(2) by (rule uploadOne_failure)
  have lo: "listOutbox (bumpOutboxTry (job_id job) msg ?db1)
      = map (bumped (job_id job) msg) (listOutbox (db st))"
    by (simp add: listOutbox_bump) (simp add: listOutbox_def)
  show "effects (attempt t job st) =
           Notify True (length (outbox (db st)))
           # Sleep (250 * 2 ^ min 6 (max 1 (tries job)))
           # Bumped (job_id job) msg
           # Fetch (job_id job) (upload_request job (Some (meta_of (now_loop t) (job_docId job) (db st))))
           # effects st"
    using up lo
    by (simp add: attempt_def upsertDocMeta_identity [OF assms(1)] upload_failed_def
        notifySyncChange_def Let_def)
  show "listOutbox (db (attempt t job st)) = map (bumped (job_id job) msg) (listOutbox (db st))"
    using up lo
    by (simp add: attempt_def upsertDocMeta_identity [OF assms(1)] upload_failed_def
        notifySyncChange_def Let_def)
qed

lemma attempt_success:
  assumes "validDocId (job_docId job)" and "failure_message (fetched t) = None"
  shows "effects (attempt t job st) =
           Notify True (length (filter (\<lambda>j. job_id j \<noteq> job_id job) (outbox (db st))))
           # Removed (job_id job)
           # Fetch (job_id job) (upload_request job (Some (meta_of (now_loop t) (job_docId job) (db st))))
           # effects st"
    and "listOutbox (db (attempt t job st)) = filter (\<lambda>j. job_id j \<noteq> job_id job) (listOutbox (db st))"
proof -
  let ?db1 = "(db st)\<lparr>docs := (docs (db st))(docId (meta_of (now_loop t) (job_docId job) (db st))
      \<mapsto> meta_of (now_loop t) (job_docId job) (db st))\<rparr>"
  obtain ldb2 where up: "uploadOne job (fetched t) (now_upload t) (now_synced t) ?db1 = Inr ldb2"
    and ob: "outbox ldb2 = outbox (db st)"
    using uploadOne_success [OF assms(2) assms(1), of "now_upload t" "now_synced t" ?db1] by auto
  have lo: "listOutbox (removeOutbox (job_id job) ldb2)
      = filter (\<lambda>j. job_id j \<noteq> job_id job) (listOutbox (db st))"
    using ob by (simp add: listOutbox_remove) (simp add: listOutbox_def)
  have len: "length (outbox (removeOutbox (job_id job) ldb2))
      = length (filter (\<lambda>j. job_id j \<noteq> job_id job) (outbox (db st)))"
    using ob by (simp add: removeOutbox_def)
  show "effects (attempt t job st) =
           Notify True (length (filter (\<lambda>j. job_id j \<noteq> job_id job) (outbox (db st))))
           # Removed (job_id job)
           # Fetch (job_id job) (upload_request job (Some (meta_of (now_loop t) (job_docId job) (db st))))
           # effects st"
    using up len
    by (simp add: attempt_def upsertDocMeta_identity [OF assms(1)] notifySyncChange_def Let_def)
  show "listOutbox (db (attempt t job st)) = filter (\<lambda>j. job_id j \<noteq> job_id job) (listOutbox (db st))"
    using up lo
    by (simp add: attempt_def upsertDocMeta_identity [OF assms(1)] notifySyncChange_def Let_def)
qed

lemma attempt_invalid:
  assumes "\<not> validDocId (job_docId job)"
  shows "effects (attempt t job st) =
           Notify True (length (outbox (db st)))
           # Sleep (250 * 2 ^ min 6 (max 1 (tries job)))
           # Bumped (job_id job) ''docId invalide.''
           # effects st"
    and "listOutbox (db (attempt t job st)) = map (bumped (job_id job)  ''docId invalide.'') (listOutbox (db st))"
  by (simp_all add: attempt_def upsertDocMeta_invalid [OF assms] upload_failed_def
      notifySyncChange_def Let_def listOutbox_bump)

lemma drain_tick_attempt:
  "listOutbox (db st) = job # rest \<Longrightarrow> net t \<Longrightarrow>
   drain_tick t st = attempt t job (st\<lparr>onLine := True\<rparr>)"
  by (simp add: drain_tick_def)

lemma drain_tick_leave:
  "listOutbox (db st) = [] \<or> \<not> net t \<Longrightarrow> drain_tick t st = flush_leave (st\<lparr>onLine := net t\<rparr>)"
  by (auto simp: drain_tick_def Let_def split: list.splits)

lemma conflict_message:
  "fetched t = FetchResponse res \<Longrightarrow> res_status res = 409 \<Longrightarrow>
   failure_message (fetched t)
     = Some (''Conflit serveur (409). revServer='' @
             (case res_json res of Inr (Some r) \<Rightarrow> show_int r | _ \<Rightarrow> ''?''))"
  by (simp add: failure_message_def)

lemma tick_fetches_head:
  assumes "listOutbox (db st) = job # rest" and "validDocId (job_docId job)" and "net t"
  shows "\<exists>later. effects (drain_tick t st)
           = later @ Fetch (job_id job)
               (upload_request job (Some (meta_of (now_loop t) (job_docId job) (db st))))
             # effects st
         \<and> (\<forall>i r. Fetch i r \<notin> set later)"
proof (cases "failure_message (fetched t)")
  case None
  show ?thesis
    using attempt_success(1) [OF assms(2) None, of "st\<lparr>onLine := True\<rparr>"]
    by (simp add: drain_tick_attempt [OF assms(1) assms(3)])
next
  case (Some msg)
  show ?thesis
    using attempt_failure(1) [OF assms(2) Some, of "st\<lparr>onLine := True\<rparr>"]
    by (simp add: drain_tick_attempt [OF assms(1) assms(3)])
qed

section \<open>Frontend: properties of the flusher\<close>

text \<open>
  C7. The drain loop takes the job at the head of the listing (its docId valid) and reads
  the document's meta; the one request the tick sends for it is \<^verbatim>\<open>POST /api/docs\<close> when
  the meta has no \<^verbatim>\<open>revServer\<close> or one that is at most 0 (a document without meta gets
  the fresh one, which has none), and \<^verbatim>\<open>PUT /api/docs/:docId\<close> otherwise. The same holds
  of \<^const>\<open>upload_request\<close> for any job and any meta, \<^verbatim>\<open>null\<close> included.
\<close>

theorem upload_method_decided_by_revServer:
  assumes "listOutbox (db st) = job # rest" and "validDocId (job_docId job)" and "net t"
  shows "(\<exists>req later.
            effects (drain_tick t st) = later @ Fetch (job_id job) req # effects st
          \<and> (\<forall>i r. Fetch i r \<notin> set later)
          \<and> body_docId (req_body req) = Some (job_docId job)
          \<and> body_revClient (req_body req) = Some (show_int (job_rev job))
          \<and> (if (case docs (db st) (job_docId job) of
                    None \<Rightarrow> True
                  | Some m \<Rightarrow> (case revServer m of None \<Rightarrow> True | Some r \<Rightarrow> r \<le> 0))
              then req_method req = POST \<and> req_url req = ApiDocs
              else req_method req = PUT \<and> req_url req = ApiDocsId (job_docId job)))
       \<and> (\<forall>j meta.
             if (case meta of
                   None \<Rightarrow> True
                 | Some m \<Rightarrow> (case revServer m of None \<Rightarrow> True | Some r \<Rightarrow> r \<le> 0))
             then req_method (upload_request j meta) = POST
                \<and> req_url (upload_request j meta) = ApiDocs
             else req_method (upload_request j meta) = PUT
                \<and> req_url (upload_request j meta) = ApiDocsId (job_docId j))"
proof -
  let ?req = "upload_request job (Some (meta_of (now_loop t) (job_docId job) (db st)))"
  obtain later where eff: "effects (drain_tick t st) = later @ Fetch (job_id job) ?req # effects st"
    and nofetch: "\<forall>i r. Fetch i r \<notin> set later"
    using tick_fetches_head [OF assms] by blast
  have body: "body_docId (req_body ?req) = Some (job_docId job)"
    "body_revClient (req_body ?req) = Some (show_int (job_rev job))"
    by (simp_all add: upload_request_def Let_def)
  have meth: "if (case docs (db st) (job_docId job) of
                    None \<Rightarrow> True
                  | Some m \<Rightarrow> (case revServer m of None \<Rightarrow> True | Some r \<Rightarrow> r \<le> 0))
              then req_method ?req = POST \<and> req_url ?req = ApiDocs
              else req_method ?req = PUT \<and> req_url ?req = ApiDocsId (job_docId job)"
    by (auto simp: upload_request_def existsOnServer_def meta_of_def Let_def split: option.splits)
  have general: "\<forall>j meta.
             if (case meta of
                   None \<Rightarrow> True
                 | Some m \<Rightarrow> (case revServer m of None \<Rightarrow> True | Some r \<Rightarrow> r \<le> 0))
             then req_method (upload_request j meta) = POST
                \<and> req_url (upload_request j meta) = ApiDocs
             else req_method (upload_request j meta) = PUT
                \<and> req_url (upload_request j meta) = ApiDocsId (job_docId j)"
    by (auto simp: upload_request_def existsOnServer_def Let_def split: option.splits)
  from eff nofetch body meth general show ?thesis
    by blast
qed

theorem upload_method_decided_by_revServer_witness:
  "listOutbox (db example_client) = jobA # [jobB] \<and> validDocId (job_docId jobA)
   \<and> net (tick_status 200 (Some 1))
   \<and> docs (db example_client) (job_docId jobA) = None
   \<and> (\<exists>req later.
         effects (drain_tick (tick_status 200 (Some 1)) example_client)
           = later @ Fetch (job_id jobA) req # effects example_client
       \<and> req_method req = POST \<and> req_url req = ApiDocs)
   \<and> req_method (upload_request jobB
        (Some \<lparr>docId = ''document1'', filename = ''a.pdf'', createdAt = 10, updatedAt = 20,
               revLocal = 3, revServer = Some 1, lastSyncedAt = Some 20\<rparr>)) = PUT"
proof -
  have jobs: "listOutbox (db example_client) = jobA # [jobB]"
    by (simp add: listOutbox_def example_client_def jobA_def jobB_def)
  have v: "validDocId (job_docId jobA)"
    by (simp add: jobA_def validDocId_def docIdChar_def)
  have n: "net (tick_status 200 (Some 1))"
    by (simp add: tick_status_def)
  have none: "docs (db example_client) (job_docId jobA) = None"
    by (simp add: example_client_def)
  have put: "req_method (upload_request jobB
        (Some \<lparr>docId = ''document1'', filename = ''a.pdf'', createdAt = 10, updatedAt = 20,
               revLocal = 3, revServer = Some 1, lastSyncedAt = Some 20\<rparr>)) = PUT"
    using upload_method_decided_by_revServer [OF jobs v n]
    by (simp add: upload_request_def existsOnServer_def)
  from upload_method_decided_by_revServer [OF jobs v n] none
  have "\<exists>req later.
         effects (drain_tick (tick_status 200 (Some 1)) example_client)
           = later @ Fetch (job_id jobA) req # effects example_client
       \<and> req_method req = POST \<and> req_url req = ApiDocs"
    by auto
  with jobs v n none put show ?thesis
    by blast
qed

text \<open>
  C2, as the code has it. A 409 answer to the upload of the job at the head of the outbox
  goes the way of every failed upload: \<^const>\<open>uploadOne\<close> throws a message that carries
  the server's \<^verbatim>\<open>revServer\<close>, the loop's \<^verbatim>\<open>catch\<close> bumps the job's \<^verbatim>\<open>tries\<close> and
  stores the message as \<^verbatim>\<open>lastError\<close>, sleeps \<open>250 * 2 ^ min 6 (max 1 tries)\<close>
  milliseconds and notifies \<open>(true, pending)\<close>; the job stays at the head of the listing,
  the drain goes on, and the next tick that is online uploads the same job again.
\<close>

theorem conflict_is_retried_with_backoff:
  assumes "listOutbox (db st) = job # rest" and "validDocId (job_docId job)" and "net t"
    and "fetched t = FetchResponse res" and "res_status res = 409"
  shows "(\<exists>req. effects (drain_tick t st) =
                 Notify True (Suc (length rest))
                 # Sleep (250 * 2 ^ min 6 (max 1 (tries job)))
                 # Bumped (job_id job)
                     (''Conflit serveur (409). revServer='' @
                      (case res_json res of Inr (Some r) \<Rightarrow> show_int r | _ \<Rightarrow> ''?''))
                 # Fetch (job_id job) req
                 # effects st)
       \<and> (\<exists>rest'. listOutbox (db (drain_tick t st)) =
                     job\<lparr>tries := Suc (tries job),
                         lastError :=
                           Some (''Conflit serveur (409). revServer='' @
                                 (case res_json res of Inr (Some r) \<Rightarrow> show_int r | _ \<Rightarrow> ''?''))\<rparr>
                     # rest'
                   \<and> map job_id rest' = map job_id rest)
       \<and> flushing (drain_tick t st) = flushing st
       \<and> drains (drain_tick t st) = drains st
       \<and> (\<forall>t'. net t' \<longrightarrow>
             (\<exists>req' later.
                effects (drain_tick t' (drain_tick t st))
                  = later @ Fetch (job_id job) req' # effects (drain_tick t st)))"
proof -
  let ?msg = "''Conflit serveur (409). revServer='' @
                (case res_json res of Inr (Some r) \<Rightarrow> show_int r | _ \<Rightarrow> ''?'')"
  let ?st' = "drain_tick t st"
  have tick: "?st' = attempt t job (st\<lparr>onLine := True\<rparr>)"
    using assms(1,3) by (rule drain_tick_attempt)
  have msg: "failure_message (fetched t) = Some ?msg"
    using assms(4,5) by (rule conflict_message)
  have len: "length (outbox (db st)) = Suc (length rest)"
    using assms(1) by (metis length_Cons length_listOutbox)
  have eff: "\<exists>req. effects ?st' =
                 Notify True (Suc (length rest))
                 # Sleep (250 * 2 ^ min 6 (max 1 (tries job)))
                 # Bumped (job_id job) ?msg # Fetch (job_id job) req # effects st"
    using attempt_failure(1) [OF assms(2) msg, of "st\<lparr>onLine := True\<rparr>"] len
    by (simp add: tick)
  have lo: "listOutbox (db ?st') = map (bumped (job_id job) ?msg) (job # rest)"
    using attempt_failure(2) [OF assms(2) msg, of "st\<lparr>onLine := True\<rparr>"] assms(1)
    by (simp add: tick)
  have ids: "map job_id (map (bumped (job_id job) ?msg) rest) = map job_id rest"
    by (simp add: bumped_def)
  have lo': "\<exists>rest'. listOutbox (db ?st') =
                     job\<lparr>tries := Suc (tries job), lastError := Some ?msg\<rparr> # rest'
                   \<and> map job_id rest' = map job_id rest"
    using lo ids by (simp add: bumped_def)
  have flags: "flushing ?st' = flushing st" "drains ?st' = drains st"
    by (simp_all add: tick)
  have again: "\<forall>t'. net t' \<longrightarrow>
             (\<exists>req' later.
                effects (drain_tick t' ?st') = later @ Fetch (job_id job) req' # effects ?st')"
  proof (intro allI impI)
    fix t' :: tick
    assume "net t'"
    from lo' obtain rest' where
      hd: "listOutbox (db ?st') = job\<lparr>tries := Suc (tries job), lastError := Some ?msg\<rparr> # rest'"
      by blast
    have v: "validDocId (job_docId (job\<lparr>tries := Suc (tries job), lastError := Some ?msg\<rparr>))"
      using assms(2) by simp
    from tick_fetches_head [OF hd v \<open>net t'\<close>]
    show "\<exists>req' later.
            effects (drain_tick t' ?st') = later @ Fetch (job_id job) req' # effects ?st'"
      by auto
  qed
  from eff lo' flags again show ?thesis
    by blast
qed

theorem conflict_is_retried_with_backoff_witness:
  "listOutbox (db example_client) = jobA # [jobB] \<and> validDocId (job_docId jobA)
   \<and> net (tick_status 409 (Some 3))
   \<and> fetched (tick_status 409 (Some 3))
       = FetchResponse \<lparr>res_status = 409, res_text = [], res_json = Inr (Some 3)\<rparr>
   \<and> (\<exists>req. effects (drain_tick (tick_status 409 (Some 3)) example_client) =
                 [Notify True 2, Sleep 500,
                  Bumped (job_id jobA) (''Conflit serveur (409). revServer='' @ show_int 3),
                  Fetch (job_id jobA) req])
   \<and> (\<exists>req' later.
         effects (drain_tick (tick_status 409 (Some 3))
                    (drain_tick (tick_status 409 (Some 3)) example_client))
           = later @ Fetch (job_id jobA) req'
               # effects (drain_tick (tick_status 409 (Some 3)) example_client))"
proof -
  let ?res = "\<lparr>res_status = 409, res_text = [], res_json = Inr (Some 3)\<rparr>"
  have jobs: "listOutbox (db example_client) = jobA # [jobB]"
    by (simp add: listOutbox_def example_client_def jobA_def jobB_def)
  have v: "validDocId (job_docId jobA)"
    by (simp add: jobA_def validDocId_def docIdChar_def)
  have n: "net (tick_status 409 (Some 3))"
    by (simp add: tick_status_def)
  have f: "fetched (tick_status 409 (Some 3)) = FetchResponse ?res"
    by (simp add: tick_status_def)
  have s: "res_status ?res = 409"
    by simp
  have e: "effects example_client = []" and t: "tries jobA = 0"
    by (simp_all add: example_client_def jobA_def)
  from conflict_is_retried_with_backoff [OF jobs v n f s] n e t
  have "(\<exists>req. effects (drain_tick (tick_status 409 (Some 3)) example_client) =
                 [Notify True 2, Sleep 500,
                  Bumped (job_id jobA) (''Conflit serveur (409). revServer='' @ show_int 3),
                  Fetch (job_id jobA) req])
   \<and> (\<exists>req' later.
         effects (drain_tick (tick_status 409 (Some 3))
                    (drain_tick (tick_status 409 (Some 3)) example_client))
           = later @ Fetch (job_id jobA) req'
               # effects (drain_tick (tick_status 409 (Some 3)) example_client))"
    by (simp add: numeral_2_eq_2)
  with jobs v n f show ?thesis
    by blast
qed

text \<open>
  C2, as the claim states it, fails: the server answers 409 to the first job twice, and
  the flusher bumps it, sleeps 500 ms and sends the same request again.
\<close>

theorem conflict_not_retried_counterexample:
  "trace (run [FlushCall, DrainTick (tick_status 409 (Some 3)), DrainTick (tick_status 409 (Some 3))]
       example_client)
   = [Notify True 2,
      Fetch ''document1:1'' (post_of jobA),
      Bumped ''document1:1'' ''Conflit serveur (409). revServer=3'', Sleep 500,
      Notify True 2,
      Fetch ''document1:1'' (post_of jobA),
      Bumped ''document1:1'' ''Conflit serveur (409). revServer=3'', Sleep 500,
      Notify True 2]"
  by code_simp

lemma flush_leave_quiet:
  "\<not> flushQueued st \<Longrightarrow>
   flush_leave st = st\<lparr>effects := Notify False 0 # effects st, flushing := False,
                       drains := drains st - 1\<rparr>"
  by (simp add: flush_leave_def notifySyncChange_def Let_def)

lemma drain_end:
  "drain ts s = Some s' \<Longrightarrow> \<not> flushQueued s \<Longrightarrow>
   (\<exists>older. effects s' = Notify False 0 # older) \<and> \<not> flushing s'
   \<and> (listOutbox (db s') \<noteq> [] \<longrightarrow> \<not> onLine s')"
proof (induction ts arbitrary: s)
  case Nil
  then have "listOutbox (db s) = []" and "s' = flush_leave s"
    by (auto split: if_splits)
  then show ?case
    using Nil.prems(2) by (simp add: flush_leave_quiet)
next
  case (Cons t ts)
  consider (empty) "listOutbox (db s) = []"
    | (online) "listOutbox (db s) \<noteq> []" "net t"
    | (offline) "listOutbox (db s) \<noteq> []" "\<not> net t"
    by blast
  then show ?case
  proof cases
    case empty
    then have "s' = flush_leave s"
      using Cons.prems(1) by simp
    then show ?thesis
      using empty Cons.prems(2) by (simp add: flush_leave_quiet)
  next
    case online
    then obtain job rest where jobs: "listOutbox (db s) = job # rest"
      by (cases "listOutbox (db s)") auto
    have tick: "drain_tick t s = attempt t job (s\<lparr>onLine := True\<rparr>)"
      using jobs online by (simp add: drain_tick_attempt)
    have "drain ts (drain_tick t s) = Some s'"
      using Cons.prems(1) online by simp
    moreover have "\<not> flushQueued (drain_tick t s)"
      using Cons.prems(2) by (simp add: tick)
    ultimately show ?thesis
      by (rule Cons.IH)
  next
    case offline
    then have leave: "drain_tick t s = flush_leave (s\<lparr>onLine := net t\<rparr>)"
      by (simp add: drain_tick_leave)
    have "s' = drain_tick t s"
      using Cons.prems(1) offline by simp
    then have "s' = s\<lparr>onLine := net t, effects := Notify False 0 # effects s,
                       flushing := False, drains := drains s - 1\<rparr>"
      using leave Cons.prems(2) by (simp add: flush_leave_quiet)
    then show ?thesis
      using offline by simp
  qed
qed

text \<open>
  C10. A call of \<^verbatim>\<open>flushOutbox\<close> that starts a drain (not flushing, online) and returns
  with jobs still in the outbox left the loop because the device was offline, and its last
  notification is \<open>(false, 0)\<close>, not the number of jobs that remain.
\<close>

theorem offline_exit_notifies_zero_pending:
  assumes "flushOutbox ts st = Some st'" and "\<not> flushing st" and "onLine st"
    and "listOutbox (db st') \<noteq> []"
  shows "(\<exists>older. effects st' = Notify False 0 # older)
       \<and> \<not> onLine st' \<and> \<not> flushing st'
       \<and> 0 < length (listOutbox (db st'))"
proof -
  have "drain ts (flush_enter st) = Some st'"
    using assms(1,2,3) by (simp add: flushOutbox_def)
  moreover have "\<not> flushQueued (flush_enter st)"
    using assms(2,3) by (simp add: flush_enter_def notifySyncChange_def)
  ultimately show ?thesis
    using drain_end assms(4) by blast
qed

theorem offline_exit_notifies_zero_pending_witness:
  "\<exists>st'. flushOutbox [tick_status 200 (Some 1), tick_offline] example_client = Some st'
     \<and> \<not> flushing example_client \<and> onLine example_client
     \<and> listOutbox (db st') \<noteq> []
     \<and> (\<exists>older. effects st' = Notify False 0 # older)
     \<and> \<not> onLine st'"
proof -
  have "case flushOutbox [tick_status 200 (Some 1), tick_offline] example_client of
          None \<Rightarrow> False
        | Some st' \<Rightarrow> listOutbox (db st') \<noteq> []"
    by code_simp
  then obtain st' where
    r: "flushOutbox [tick_status 200 (Some 1), tick_offline] example_client = Some st'"
    and ne: "listOutbox (db st') \<noteq> []"
    by (auto split: option.splits)
  have nf: "\<not> flushing example_client" and on: "onLine example_client"
    by (simp_all add: example_client_def)
  from offline_exit_notifies_zero_pending [OF r nf on ne] r nf on ne show ?thesis
    by blast
qed

section \<open>Frontend: the flusher among other tasks\<close>

lemma run_Nil: "run [] st = st"
  by (simp add: run_def)

lemma run_Cons: "run (e # es) st = run es (step e st)"
  by (simp add: run_def)

lemma run_append: "run (xs @ ys) st = run ys (run xs st)"
  by (simp add: run_def)

lemma flush_enter_one_drain: "one_drain st \<Longrightarrow> one_drain (flush_enter st)"
  by (simp add: one_drain_def flush_enter_def notifySyncChange_def)

lemma flush_leave_one_drain: "one_drain st \<Longrightarrow> drains st \<noteq> 0 \<Longrightarrow> one_drain (flush_leave st)"
  by (auto simp: one_drain_def flush_leave_def flush_enter_def notifySyncChange_def Let_def
      split: if_splits)

lemma drain_tick_one_drain: "one_drain st \<Longrightarrow> drains st \<noteq> 0 \<Longrightarrow> one_drain (drain_tick t st)"
proof (cases "listOutbox (db st) = [] \<or> \<not> net t")
  case True
  assume "one_drain st" "drains st \<noteq> 0"
  then have "one_drain (flush_leave (st\<lparr>onLine := net t\<rparr>))"
    by (intro flush_leave_one_drain) (simp_all add: one_drain_def)
  then show ?thesis
    using True by (simp add: drain_tick_leave)
next
  case False
  assume inv: "one_drain st"
  from False obtain job rest where "listOutbox (db st) = job # rest" and "net t"
    by (cases "listOutbox (db st)") auto
  then have "drain_tick t st = attempt t job (st\<lparr>onLine := True\<rparr>)"
    by (rule drain_tick_attempt)
  then show ?thesis
    using inv by (simp add: one_drain_def)
qed

lemma step_one_drain: "one_drain st \<Longrightarrow> one_drain (step e st)"
  by (cases e) (simp_all add: flush_enter_one_drain drain_tick_one_drain, simp add: one_drain_def)

lemma run_one_drain: "one_drain st \<Longrightarrow> one_drain (run evs st)"
  by (induction evs arbitrary: st) (simp_all add: run_Nil run_Cons step_one_drain)

lemma calls_while_flushing:
  "flushing st \<Longrightarrow>
   run (replicate n FlushCall) st = (if n = 0 then st else st\<lparr>flushQueued := True\<rparr>)"
proof (induction n arbitrary: st)
  case 0
  then show ?case by (simp add: run_Nil)
next
  case (Suc n)
  have "flushing (st\<lparr>flushQueued := True\<rparr>)"
    using Suc.prems by simp
  from Suc.IH [OF this] Suc.prems show ?case
    by (simp add: run_Cons flush_enter_def)
qed

lemma reruns_flush_enter [simp]: "reruns (flush_enter st) = reruns st"
  by (simp add: flush_enter_def notifySyncChange_def)

lemma during_drain:
  "flushing st \<Longrightarrow> drains st = 1 \<Longrightarrow> drain_continues mid st \<Longrightarrow>
   flushing (run mid st) \<and> drains (run mid st) = 1 \<and> reruns (run mid st) = reruns st
   \<and> (flushQueued (run mid st) \<longleftrightarrow> flushQueued st \<or> FlushCall \<in> set mid)"
proof (induction mid st rule: drain_continues.induct)
  case (1 st)
  then show ?case by (simp add: run_Nil)
next
  case (2 es st)
  have s: "flush_enter st = st\<lparr>flushQueued := True\<rparr>"
    using "2.prems" by (simp add: flush_enter_def)
  from "2.IH" "2.prems" show ?case
    by (simp add: run_Cons s)
next
  case (3 b es st)
  from "3.IH" "3.prems" show ?case
    by (simp add: run_Cons)
next
  case (4 t es st)
  from "4.prems" obtain job rest where box: "listOutbox (db st) = job # rest" and net: "net t"
    by (cases "listOutbox (db st)") auto
  have s: "drain_tick t st = attempt t job (st\<lparr>onLine := True\<rparr>)"
    using box net by (rule drain_tick_attempt)
  from "4.IH" "4.prems" show ?case
    by (simp add: run_Cons s)
qed

lemma flush_leave_flags:
  assumes "drains st = 1"
  shows "reruns (flush_leave st) = reruns st + (if flushQueued st then 1 else 0)"
    and "drains (flush_leave st) = (if flushQueued st \<and> onLine st then 1 else 0)"
    and "flushing (flush_leave st) \<longleftrightarrow> flushQueued st \<and> onLine st"
    and "flushing (flush_leave st) \<longrightarrow> \<not> flushQueued (flush_leave st)"
  using assms
  by (simp_all add: flush_leave_def flush_enter_def notifySyncChange_def Let_def)

lemma drain_ends:
  assumes "flushing st" and "drains st = 1" and "drain_continues mid st"
    and "listOutbox (db (run mid st)) = [] \<or> \<not> net t"
  shows "reruns (run (mid @ [DrainTick t]) st)
           = reruns st + (if flushQueued st \<or> FlushCall \<in> set mid then 1 else 0)"
    and "drains (run (mid @ [DrainTick t]) st)
           = (if (flushQueued st \<or> FlushCall \<in> set mid) \<and> net t then 1 else 0)"
    and "flushing (run (mid @ [DrainTick t]) st)
           \<longleftrightarrow> (flushQueued st \<or> FlushCall \<in> set mid) \<and> net t"
    and "flushing (run (mid @ [DrainTick t]) st) \<longrightarrow> \<not> flushQueued (run (mid @ [DrainTick t]) st)"
proof -
  let ?s = "run mid st"
  from during_drain [OF assms(1-3)]
  have fl: "flushing ?s" and one: "drains ?s = 1" and rr: "reruns ?s = reruns st"
    and q: "flushQueued ?s \<longleftrightarrow> flushQueued st \<or> FlushCall \<in> set mid"
    by simp_all
  have tick: "run (mid @ [DrainTick t]) st = flush_leave (?s\<lparr>onLine := net t\<rparr>)"
    using one drain_tick_leave [OF assms(4)] by (simp add: run_append run_Cons run_Nil)
  have one': "drains (?s\<lparr>onLine := net t\<rparr>) = 1"
    using one by simp
  show "reruns (run (mid @ [DrainTick t]) st)
           = reruns st + (if flushQueued st \<or> FlushCall \<in> set mid then 1 else 0)"
    unfolding tick using flush_leave_flags(1) [OF one'] rr q by simp
  show "drains (run (mid @ [DrainTick t]) st)
           = (if (flushQueued st \<or> FlushCall \<in> set mid) \<and> net t then 1 else 0)"
    unfolding tick using flush_leave_flags(2) [OF one'] q by simp
  show "flushing (run (mid @ [DrainTick t]) st)
           \<longleftrightarrow> (flushQueued st \<or> FlushCall \<in> set mid) \<and> net t"
    unfolding tick using flush_leave_flags(3) [OF one'] q by simp
  show "flushing (run (mid @ [DrainTick t]) st) \<longrightarrow> \<not> flushQueued (run (mid @ [DrainTick t]) st)"
    unfolding tick using flush_leave_flags(4) [OF one'] by simp
qed

lemma flush_starts_fresh:
  assumes "\<not> flushing st" and "onLine st"
  shows "flushing (step FlushCall st)" and "\<not> flushQueued (step FlushCall st)"
    and "drains (step FlushCall st) = drains st + 1"
    and "reruns (step FlushCall st) = reruns st"
  using assms by (simp_all add: flush_enter_def notifySyncChange_def)


text \<open>
  C3. From a state with no flush in progress, after any sequence \<open>evs\<close> of calls of
  \<^verbatim>\<open>flushOutbox\<close>, changes of connectivity and ticks of a drain loop:

  \<^item> at most one drain loop is in flight;

  \<^item> while one is, \<open>n\<close> further calls only set \<^verbatim>\<open>flushQueued\<close>;

  \<^item> a call made online while no flush is in progress starts a drain, and whatever
    calls, changes of connectivity and iterations \<open>mid\<close> that drain goes through before
    the tick \<open>t\<close> that ends it (the outbox is empty or the device offline), the drain
    stays the only one, no call of \<^verbatim>\<open>flushOutbox\<close> is made from the \<^verbatim>\<open>finally\<close> block
    before it ends, and when it ends one such call is made if a call came at any place
    of \<open>mid\<close>, and none if no call came;

  \<^item> the same holds of a drain that is in flight at any moment, one started by the
    \<^verbatim>\<open>finally\<close> block included, with the calls that \<^verbatim>\<open>flushQueued\<close> already records
    counted in; the call from the \<^verbatim>\<open>finally\<close> block starts one drain if the device is
    online and none if it is not, and a drain it starts begins with \<^verbatim>\<open>flushQueued\<close>
    cleared, so that it is followed by another only if a call comes during it.
\<close>

theorem flush_is_single_flight:
  assumes "\<not> flushing st0" and "drains st0 = 0"
  shows "drains (run evs st0) \<le> 1
       \<and> (flushing (run evs st0) \<longrightarrow>
            run (replicate n FlushCall) (run evs st0)
              = (if n = 0 then run evs st0 else (run evs st0)\<lparr>flushQueued := True\<rparr>))
       \<and> (\<not> flushing (run evs st0) \<and> onLine (run evs st0)
            \<and> drain_continues mid (run (evs @ [FlushCall]) st0)
            \<and> (listOutbox (db (run (evs @ FlushCall # mid) st0)) = [] \<or> \<not> net t) \<longrightarrow>
              flushing (run (evs @ FlushCall # mid) st0)
            \<and> drains (run (evs @ FlushCall # mid) st0) = 1
            \<and> reruns (run (evs @ FlushCall # mid) st0) = reruns (run evs st0)
            \<and> reruns (run (evs @ FlushCall # mid @ [DrainTick t]) st0)
                = reruns (run evs st0) + (if FlushCall \<in> set mid then 1 else 0)
            \<and> drains (run (evs @ FlushCall # mid @ [DrainTick t]) st0)
                = (if FlushCall \<in> set mid \<and> net t then 1 else 0))
       \<and> (flushing (run evs st0) \<and> drain_continues mid (run evs st0)
            \<and> (listOutbox (db (run (evs @ mid) st0)) = [] \<or> \<not> net t) \<longrightarrow>
              flushing (run (evs @ mid) st0)
            \<and> drains (run (evs @ mid) st0) = 1
            \<and> reruns (run (evs @ mid) st0) = reruns (run evs st0)
            \<and> reruns (run (evs @ mid @ [DrainTick t]) st0)
                = reruns (run evs st0)
                  + (if flushQueued (run evs st0) \<or> FlushCall \<in> set mid then 1 else 0)
            \<and> drains (run (evs @ mid @ [DrainTick t]) st0)
                = (if (flushQueued (run evs st0) \<or> FlushCall \<in> set mid) \<and> net t then 1 else 0)
            \<and> (flushing (run (evs @ mid @ [DrainTick t]) st0)
                 \<longleftrightarrow> (flushQueued (run evs st0) \<or> FlushCall \<in> set mid) \<and> net t)
            \<and> (flushing (run (evs @ mid @ [DrainTick t]) st0)
                 \<longrightarrow> \<not> flushQueued (run (evs @ mid @ [DrainTick t]) st0)))"
proof -
  let ?st = "run evs st0"
  have "one_drain st0"
    using assms by (simp add: one_drain_def)
  then have inv: "one_drain ?st"
    by (rule run_one_drain)
  then have le: "drains ?st \<le> 1"
    by (simp add: one_drain_def)
  have calls: "run (replicate n FlushCall) ?st
      = (if n = 0 then ?st else ?st\<lparr>flushQueued := True\<rparr>)" if "flushing ?st"
    using that by (rule calls_while_flushing)
  have whole: "flushing (run (evs @ FlushCall # mid) st0)
      \<and> drains (run (evs @ FlushCall # mid) st0) = 1
      \<and> reruns (run (evs @ FlushCall # mid) st0) = reruns ?st
      \<and> reruns (run (evs @ FlushCall # mid @ [DrainTick t]) st0)
          = reruns ?st + (if FlushCall \<in> set mid then 1 else 0)
      \<and> drains (run (evs @ FlushCall # mid @ [DrainTick t]) st0)
          = (if FlushCall \<in> set mid \<and> net t then 1 else 0)"
    if idle: "\<not> flushing ?st" and on: "onLine ?st"
      and cont: "drain_continues mid (run (evs @ [FlushCall]) st0)"
      and fin: "listOutbox (db (run (evs @ FlushCall # mid) st0)) = [] \<or> \<not> net t"
  proof -
    let ?s1 = "step FlushCall ?st"
    have d0: "drains ?st = 0"
      using inv idle by (simp add: one_drain_def)
    have s1: "flushing ?s1" "\<not> flushQueued ?s1" "drains ?s1 = 1" "reruns ?s1 = reruns ?st"
      using flush_starts_fresh [OF idle on] d0 by simp_all
    have cont1: "drain_continues mid ?s1"
      using cont by (simp add: run_append run_Cons run_Nil)
    have fin1: "listOutbox (db (run mid ?s1)) = [] \<or> \<not> net t"
      using fin by (simp add: run_append run_Cons)
    have r1: "run (evs @ FlushCall # mid) st0 = run mid ?s1"
      and r2: "run (evs @ FlushCall # mid @ [DrainTick t]) st0 = run (mid @ [DrainTick t]) ?s1"
      by (simp_all add: run_append run_Cons)
    show ?thesis
      unfolding r1 r2
      using during_drain [OF s1(1) s1(3) cont1]
        drain_ends(1,2) [OF s1(1) s1(3) cont1 fin1] s1(2,4)
      by simp
  qed
  have inflight: "flushing (run (evs @ mid) st0)
      \<and> drains (run (evs @ mid) st0) = 1
      \<and> reruns (run (evs @ mid) st0) = reruns ?st
      \<and> reruns (run (evs @ mid @ [DrainTick t]) st0)
          = reruns ?st + (if flushQueued ?st \<or> FlushCall \<in> set mid then 1 else 0)
      \<and> drains (run (evs @ mid @ [DrainTick t]) st0)
          = (if (flushQueued ?st \<or> FlushCall \<in> set mid) \<and> net t then 1 else 0)
      \<and> (flushing (run (evs @ mid @ [DrainTick t]) st0)
           \<longleftrightarrow> (flushQueued ?st \<or> FlushCall \<in> set mid) \<and> net t)
      \<and> (flushing (run (evs @ mid @ [DrainTick t]) st0)
           \<longrightarrow> \<not> flushQueued (run (evs @ mid @ [DrainTick t]) st0))"
    if fl: "flushing ?st" and cont: "drain_continues mid ?st"
      and fin: "listOutbox (db (run (evs @ mid) st0)) = [] \<or> \<not> net t"
  proof -
    have one: "drains ?st = 1"
      using inv fl by (simp add: one_drain_def)
    have fin1: "listOutbox (db (run mid ?st)) = [] \<or> \<not> net t"
      using fin by (simp add: run_append)
    have r1: "run (evs @ mid) st0 = run mid ?st"
      and r2: "run (evs @ mid @ [DrainTick t]) st0 = run (mid @ [DrainTick t]) ?st"
      by (simp_all add: run_append)
    show ?thesis
      unfolding r1 r2
      using during_drain [OF fl one cont] drain_ends [OF fl one cont fin1]
      by simp
  qed
  from le calls whole inflight show ?thesis
    by blast
qed


theorem flush_is_single_flight_witness:
  "\<not> flushing example_client \<and> drains example_client = 0 \<and> onLine example_client
   \<and> drains (run [FlushCall, FlushCall, FlushCall] example_client) \<le> 1
   \<and> flushing (run [FlushCall] example_client)
   \<and> flushQueued (run (replicate 2 FlushCall) (run [FlushCall] example_client))
   \<and> drain_continues refused_then_called (run [FlushCall] example_client)
   \<and> \<not> net tick_offline
   \<and> FlushCall \<in> set refused_then_called
   \<and> reruns (run (FlushCall # refused_then_called) example_client) = reruns example_client
   \<and> reruns (run (FlushCall # refused_then_called @ [DrainTick tick_offline]) example_client)
       = reruns example_client + 1
   \<and> drains (run (FlushCall # refused_then_called @ [DrainTick tick_offline]) example_client) = 0
   \<and> drain_continues [DrainTick (tick_status 409 (Some 3))] (run [FlushCall] example_client)
   \<and> reruns (run (FlushCall # [DrainTick (tick_status 409 (Some 3))] @ [DrainTick tick_offline])
         example_client) = reruns example_client
   \<and> drain_continues accepted_and_called (run [FlushCall] example_client)
   \<and> listOutbox (db (run ([FlushCall] @ accepted_and_called) example_client)) = []
   \<and> \<not> flushQueued (run [FlushCall] example_client)
   \<and> reruns (run ([FlushCall] @ accepted_and_called @ [DrainTick (tick_status 200 None)])
         example_client) = reruns (run [FlushCall] example_client) + 1
   \<and> drains (run ([FlushCall] @ accepted_and_called @ [DrainTick (tick_status 200 None)])
         example_client) = 1
   \<and> \<not> flushQueued (run ([FlushCall] @ accepted_and_called @ [DrainTick (tick_status 200 None)])
         example_client)"
proof -
  have nf: "\<not> flushing example_client" and d0: "drains example_client = 0"
    and on: "onLine example_client"
    by (simp_all add: example_client_def)
  have fl: "flushing (run [FlushCall] example_client)"
    and nq: "\<not> flushQueued (run [FlushCall] example_client)"
    by (simp_all add: run_Cons run_Nil example_client_def flush_enter_def notifySyncChange_def)
  have off: "\<not> net tick_offline"
    by (simp add: tick_offline_def)
  have onl: "net (tick_status 200 None)"
    by (simp add: tick_status_def)
  have mem: "FlushCall \<in> set refused_then_called" "FlushCall \<in> set accepted_and_called"
    by (simp_all add: refused_then_called_def accepted_and_called_def)
  have c1: "drain_continues refused_then_called (run [FlushCall] example_client)"
    by code_simp
  have c2: "drain_continues [DrainTick (tick_status 409 (Some 3))] (run [FlushCall] example_client)"
    by code_simp
  have c3: "drain_continues accepted_and_called (run [FlushCall] example_client)"
    by code_simp
  have e3: "listOutbox (db (run ([FlushCall] @ accepted_and_called) example_client)) = []"
    by code_simp
  from flush_is_single_flight [OF nf d0, of "[FlushCall, FlushCall, FlushCall]"]
  have a: "drains (run [FlushCall, FlushCall, FlushCall] example_client) \<le> 1"
    by blast
  from flush_is_single_flight [OF nf d0, of "[FlushCall]" 2] fl
  have b: "run (replicate 2 FlushCall) (run [FlushCall] example_client)
             = (run [FlushCall] example_client)\<lparr>flushQueued := True\<rparr>"
    by simp
  have q: "flushQueued (run (replicate 2 FlushCall) (run [FlushCall] example_client))"
    by (simp only: b) simp
  from flush_is_single_flight [OF nf d0, of "[]" _ refused_then_called tick_offline]
    nf on c1 off mem
  have r1: "reruns (run (FlushCall # refused_then_called) example_client) = reruns example_client"
    and r2: "reruns (run (FlushCall # refused_then_called @ [DrainTick tick_offline])
          example_client) = reruns example_client + 1"
    and r3: "drains (run (FlushCall # refused_then_called @ [DrainTick tick_offline])
          example_client) = 0"
    by (simp_all add: run_Nil)
  from flush_is_single_flight [OF nf d0, of "[]" _ "[DrainTick (tick_status 409 (Some 3))]"
      tick_offline] nf on c2 off
  have r4: "reruns (run (FlushCall # [DrainTick (tick_status 409 (Some 3))]
          @ [DrainTick tick_offline]) example_client) = reruns example_client"
    by (simp add: run_Nil)
  from flush_is_single_flight [OF nf d0, of "[FlushCall]" _ accepted_and_called
      "tick_status 200 None"] fl c3 e3 onl mem nq
  have r5: "reruns (run ([FlushCall] @ accepted_and_called @ [DrainTick (tick_status 200 None)])
         example_client) = reruns (run [FlushCall] example_client) + 1"
    and r6: "drains (run ([FlushCall] @ accepted_and_called @ [DrainTick (tick_status 200 None)])
         example_client) = 1"
    and r7: "\<not> flushQueued (run ([FlushCall] @ accepted_and_called
         @ [DrainTick (tick_status 200 None)]) example_client)"
    by simp_all
  from nf d0 on a fl q c1 off mem(1) r1 r2 r3 c2 r4 c3 e3 nq r5 r6 r7 show ?thesis
    by blast
qed

lemma fifo_inv_notify: "fifo_inv init st \<Longrightarrow> fifo_inv init (notifySyncChange x n st)"
  by (auto simp: fifo_inv_def tracked_def notifySyncChange_def)

lemma fifo_inv_same:
  assumes "fifo_inv init st" and "db st' = db st" and "effects st' = effects st"
  shows "fifo_inv init st'"
  using assms by (auto simp: fifo_inv_def tracked_def)

lemma flush_enter_fifo:
  assumes "fifo_inv init st"
  shows "fifo_inv init (flush_enter st)"
proof -
  have "fifo_inv init (st\<lparr>flushQueued := True\<rparr>)"
    using assms by (rule fifo_inv_same) simp_all
  moreover have "fifo_inv init (st\<lparr>flushing := True, flushQueued := False, drains := drains st + 1\<rparr>)"
    using assms by (rule fifo_inv_same) simp_all
  ultimately show ?thesis
    using assms by (simp add: flush_enter_def fifo_inv_notify)
qed

lemma flush_leave_fifo:
  assumes "fifo_inv init st"
  shows "fifo_inv init (flush_leave st)"
proof -
  let ?st1 = "notifySyncChange False 0 st"
  let ?st2 = "?st1\<lparr>flushing := False, drains := drains ?st1 - 1\<rparr>"
  have "fifo_inv init ?st1"
    using assms by (rule fifo_inv_notify)
  then have two: "fifo_inv init ?st2"
    by (rule fifo_inv_same) simp_all
  then have "fifo_inv init (?st2\<lparr>reruns := reruns ?st2 + 1\<rparr>)"
    by (rule fifo_inv_same) simp_all
  then have "fifo_inv init (flush_enter (?st2\<lparr>reruns := reruns ?st2 + 1\<rparr>))"
    by (rule flush_enter_fifo)
  with two show ?thesis
    by (simp add: flush_leave_def Let_def)
qed

lemma tracked_bumped:
  assumes tr: "tracked init st"
    and box: "set (outbox (db st')) = bumped i msg ` set (outbox (db st))"
    and eff: "\<And>x. Removed x \<in> set (effects st') \<longleftrightarrow> Removed x \<in> set (effects st)"
  shows "tracked init st'"
proof -
  have key: "job_id (bumped i msg j) = job_id j \<and> job_createdAt (bumped i msg j) = job_createdAt j"
    for j
    by (simp add: bumped_def)
  have j1: "\<exists>b\<in>set init. job_id b = job_id j \<and> job_createdAt b = job_createdAt j"
    if "j \<in> set (outbox (db st'))" for j
  proof -
    from that box obtain j0 where "j0 \<in> set (outbox (db st))" and "j = bumped i msg j0"
      by auto
    with tr key [of j0] show ?thesis
      by (auto simp: tracked_def)
  qed
  have j2: "\<exists>a'\<in>set (outbox (db st')). job_id a' = job_id a \<and> job_createdAt a' = job_createdAt a"
    if "a \<in> set init" and "Removed (job_id a) \<notin> set (effects st')" for a
  proof -
    from that eff have "Removed (job_id a) \<notin> set (effects st)"
      by simp
    with tr that(1) obtain a' where "a' \<in> set (outbox (db st))" and "job_id a' = job_id a"
      and "job_createdAt a' = job_createdAt a"
      by (auto simp: tracked_def)
    with box key [of a'] have "bumped i msg a' \<in> set (outbox (db st'))
        \<and> job_id (bumped i msg a') = job_id a
        \<and> job_createdAt (bumped i msg a') = job_createdAt a"
      by simp
    then show ?thesis
      by blast
  qed
  from j1 j2 show ?thesis
    unfolding tracked_def by blast
qed

lemma tracked_removed:
  assumes tr: "tracked init st"
    and box: "set (outbox (db st')) = {j \<in> set (outbox (db st)). job_id j \<noteq> i}"
    and eff: "\<And>x. Removed x \<in> set (effects st') \<longleftrightarrow> x = i \<or> Removed x \<in> set (effects st)"
  shows "tracked init st'"
proof -
  have j1: "\<exists>b\<in>set init. job_id b = job_id j \<and> job_createdAt b = job_createdAt j"
    if "j \<in> set (outbox (db st'))" for j
    using that box tr by (auto simp: tracked_def)
  have j2: "\<exists>a'\<in>set (outbox (db st')). job_id a' = job_id a \<and> job_createdAt a' = job_createdAt a"
    if "a \<in> set init" and "Removed (job_id a) \<notin> set (effects st')" for a
  proof -
    from that eff have ne: "job_id a \<noteq> i" and "Removed (job_id a) \<notin> set (effects st)"
      by auto
    with tr that(1) obtain a' where "a' \<in> set (outbox (db st))" and "job_id a' = job_id a"
      and "job_createdAt a' = job_createdAt a"
      by (auto simp: tracked_def)
    with box ne show ?thesis
      by auto
  qed
  from j1 j2 show ?thesis
    unfolding tracked_def by blast
qed

lemma head_before_all:
  assumes tr: "tracked init st" and dist: "distinct (map job_id init)"
    and hd: "listOutbox (db st) = job # rest"
    and a: "a \<in> set init" and b: "b \<in> set init"
    and id: "job_id b = job_id job" and lt: "job_createdAt a < job_createdAt b"
  shows "Removed (job_id a) \<in> set (effects st)"
proof (rule ccontr)
  assume "Removed (job_id a) \<notin> set (effects st)"
  with tr a obtain a' where a': "a' \<in> set (outbox (db st))"
    and ca: "job_createdAt a' = job_createdAt a"
    by (auto simp: tracked_def)
  have "job \<in> set (outbox (db st))"
    using hd by (metis list.set_intros(1) set_listOutbox)
  with tr obtain b0 where b0: "b0 \<in> set init" and idb0: "job_id b0 = job_id job"
    and cb0: "job_createdAt b0 = job_createdAt job"
    by (auto simp: tracked_def)
  have "inj_on job_id (set init)"
    using dist by (simp add: distinct_map)
  with b b0 id idb0 have "b = b0"
    by (metis inj_onD)
  moreover have "job_createdAt job \<le> job_createdAt a'"
    using hd a' by (rule listOutbox_head_oldest)
  ultimately show False
    using lt ca cb0 by simp
qed

lemma attempt_fifo:
  assumes inv: "fifo_inv init st" and dist: "distinct (map job_id init)"
    and hd: "listOutbox (db st) = job # rest"
  shows "fifo_inv init (attempt t job st)"
proof -
  let ?st' = "attempt t job st"
  have tr: "tracked init st" and ord: "ordered init (effects st)"
    using inv by (simp_all add: fifo_inv_def)
  have head: "\<forall>a\<in>set init. \<forall>b\<in>set init.
      job_id b = job_id job \<and> job_createdAt a < job_createdAt b
        \<longrightarrow> Removed (job_id a) \<in> set (effects st)"
    using head_before_all [OF tr dist hd] by blast
  consider (invalid) "\<not> validDocId (job_docId job)"
    | (failure) msg where "validDocId (job_docId job)" "failure_message (fetched t) = Some msg"
    | (success) "validDocId (job_docId job)" "failure_message (fetched t) = None"
    by (cases "failure_message (fetched t)") auto
  then show ?thesis
  proof cases
    case invalid
    have box: "set (outbox (db ?st')) = bumped (job_id job) ''docId invalide.'' ` set (outbox (db st))"
      using attempt_invalid(2) [OF invalid, of t st]
      by (metis set_listOutbox set_map)
    have eff: "effects ?st' =
           Notify True (length (outbox (db st)))
           # Sleep (250 * 2 ^ min 6 (max 1 (tries job)))
           # Bumped (job_id job) ''docId invalide.''
           # effects st"
      by (rule attempt_invalid(1) [OF invalid])
    have "tracked init ?st'"
      using tr box by (rule tracked_bumped) (simp add: eff)
    moreover have "ordered init (effects ?st')"
      using ord by (simp add: eff)
    ultimately show ?thesis
      by (simp add: fifo_inv_def)
  next
    case failure
    have box: "set (outbox (db ?st')) = bumped (job_id job) msg ` set (outbox (db st))"
      using attempt_failure(2) [OF failure, of st]
      by (metis set_listOutbox set_map)
    have eff: "effects ?st' =
           Notify True (length (outbox (db st)))
           # Sleep (250 * 2 ^ min 6 (max 1 (tries job)))
           # Bumped (job_id job) msg
           # Fetch (job_id job) (upload_request job (Some (meta_of (now_loop t) (job_docId job) (db st))))
           # effects st"
      by (rule attempt_failure(1) [OF failure])
    have "tracked init ?st'"
      using tr box by (rule tracked_bumped) (simp add: eff)
    moreover have "ordered init (effects ?st')"
      using ord head by (simp add: eff)
    ultimately show ?thesis
      by (simp add: fifo_inv_def)
  next
    case success
    have box: "set (outbox (db ?st')) = {j \<in> set (outbox (db st)). job_id j \<noteq> job_id job}"
      using attempt_success(2) [OF success, of st]
      by (metis set_listOutbox set_filter)
    have eff: "effects ?st' =
           Notify True (length (filter (\<lambda>j. job_id j \<noteq> job_id job) (outbox (db st))))
           # Removed (job_id job)
           # Fetch (job_id job) (upload_request job (Some (meta_of (now_loop t) (job_docId job) (db st))))
           # effects st"
      by (rule attempt_success(1) [OF success])
    have "tracked init ?st'"
      using tr box by (rule tracked_removed) (auto simp: eff)
    moreover have "ordered init (effects ?st')"
      using ord head by (simp add: eff)
    ultimately show ?thesis
      by (simp add: fifo_inv_def)
  qed
qed

lemma drain_tick_fifo:
  assumes inv: "fifo_inv init st" and dist: "distinct (map job_id init)"
  shows "fifo_inv init (drain_tick t st)"
proof (cases "listOutbox (db st) = [] \<or> \<not> net t")
  case True
  have "fifo_inv init (st\<lparr>onLine := net t\<rparr>)"
    using inv by (rule fifo_inv_same) simp_all
  then have "fifo_inv init (flush_leave (st\<lparr>onLine := net t\<rparr>))"
    by (rule flush_leave_fifo)
  then show ?thesis
    using True by (simp add: drain_tick_leave)
next
  case False
  then obtain job rest where hd: "listOutbox (db st) = job # rest" and "net t"
    by (cases "listOutbox (db st)") auto
  have "fifo_inv init (st\<lparr>onLine := True\<rparr>)"
    using inv by (rule fifo_inv_same) simp_all
  moreover have "listOutbox (db (st\<lparr>onLine := True\<rparr>)) = job # rest"
    using hd by simp
  ultimately have "fifo_inv init (attempt t job (st\<lparr>onLine := True\<rparr>))"
    using dist by (intro attempt_fifo)
  then show ?thesis
    using hd \<open>net t\<close> by (simp add: drain_tick_attempt)
qed

lemma step_fifo:
  assumes "fifo_inv init st" and "distinct (map job_id init)"
  shows "fifo_inv init (step e st)"
proof (cases e)
  case FlushCall
  then show ?thesis using assms by (simp add: flush_enter_fifo)
next
  case (Connectivity b)
  have "fifo_inv init (st\<lparr>onLine := b\<rparr>)"
    using assms(1) by (rule fifo_inv_same) simp_all
  then show ?thesis using Connectivity by simp
next
  case (DrainTick t)
  then show ?thesis using assms by (simp add: drain_tick_fifo)
qed

lemma run_fifo:
  "fifo_inv init st \<Longrightarrow> distinct (map job_id init) \<Longrightarrow> fifo_inv init (run evs st)"
  by (induction evs arbitrary: st) (simp_all add: run_Nil run_Cons step_fifo)

lemma ordered_fetch:
  "ordered init es \<Longrightarrow> es = newer @ Fetch i req # older \<Longrightarrow>
   a \<in> set init \<Longrightarrow> b \<in> set init \<Longrightarrow> job_id b = i \<Longrightarrow> job_createdAt a < job_createdAt b \<Longrightarrow>
   Removed (job_id a) \<in> set older"
  by (induction newer arbitrary: es) auto

lemma ordered_removed:
  "ordered init es \<Longrightarrow> es = newer @ Removed i # older \<Longrightarrow> \<exists>req older'. older = Fetch i req # older'"
  by (induction newer arbitrary: es) auto

lemma trace_split: "trace st = pre @ e # post \<Longrightarrow> effects st = rev post @ e # rev pre"
  by (metis trace_def rev_append rev.simps(2) rev_rev_ident append.assoc append_Cons append_Nil)

text \<open>
  C4. The outbox holds jobs with distinct ids and nothing has happened yet. In every run
  (calls, changes of connectivity, ticks), a job \<open>b\<close> is uploaded only after
  \<^verbatim>\<open>removeOutbox\<close> was called for every job \<open>a\<close> created before it; and
  \<^verbatim>\<open>removeOutbox\<close> is called for a job only right after an upload of that job. So a job
  that failed is sent again, until it is accepted, before any younger job is first sent.
\<close>

theorem outbox_drained_in_creation_order:
  assumes "effects st0 = []" and "distinct (map job_id (outbox (db st0)))"
  shows "(\<forall>pre i req post a b.
            trace (run evs st0) = pre @ Fetch i req # post
            \<and> a \<in> set (outbox (db st0)) \<and> b \<in> set (outbox (db st0))
            \<and> job_id b = i \<and> job_createdAt a < job_createdAt b
            \<longrightarrow> Removed (job_id a) \<in> set pre)
       \<and> (\<forall>pre i post.
            trace (run evs st0) = pre @ Removed i # post
            \<longrightarrow> (\<exists>pre' req. pre = pre' @ [Fetch i req]))"
proof -
  let ?init = "outbox (db st0)"
  have "fifo_inv ?init st0"
    using assms(1) by (auto simp: fifo_inv_def tracked_def)
  then have "fifo_inv ?init (run evs st0)"
    using assms(2) by (rule run_fifo)
  then have ord: "ordered ?init (effects (run evs st0))"
    by (simp add: fifo_inv_def)
  have one: "Removed (job_id a) \<in> set pre"
    if "trace (run evs st0) = pre @ Fetch i req # post"
      and "a \<in> set ?init" "b \<in> set ?init" "job_id b = i" "job_createdAt a < job_createdAt b"
    for pre i req post a b
  proof -
    have "effects (run evs st0) = rev post @ Fetch i req # rev pre"
      using that(1) by (rule trace_split)
    from ordered_fetch [OF ord this that(2-5)] show ?thesis
      by simp
  qed
  have two: "\<exists>pre' req. pre = pre' @ [Fetch i req]"
    if "trace (run evs st0) = pre @ Removed i # post" for pre i post
  proof -
    have "effects (run evs st0) = rev post @ Removed i # rev pre"
      using that by (rule trace_split)
    from ordered_removed [OF ord this] obtain req older' where "rev pre = Fetch i req # older'"
      by blast
    then have "pre = rev older' @ [Fetch i req]"
      by (metis rev.simps(2) rev_rev_ident)
    then show ?thesis
      by blast
  qed
  from one two show ?thesis
    by blast
qed

theorem outbox_drained_in_creation_order_witness:
  "effects example_client = [] \<and> distinct (map job_id (outbox (db example_client)))
   \<and> trace (run fifo_events example_client)
       = [Notify True 2,
          Fetch ''document1:1'' (post_of jobA),
          Bumped ''document1:1'' ''Conflit serveur (409). revServer=3'', Sleep 500,
          Notify True 2,
          Fetch ''document1:1'' (post_of jobA), Removed ''document1:1'', Notify True 1]
         @ Fetch ''document1:2'' (put_of jobB)
         # [Removed ''document1:2'', Notify True 0, Notify False 0]
   \<and> jobA \<in> set (outbox (db example_client)) \<and> jobB \<in> set (outbox (db example_client))
   \<and> job_id jobB = ''document1:2'' \<and> job_createdAt jobA < job_createdAt jobB
   \<and> Removed (job_id jobA)
       \<in> set [Notify True 2,
              Fetch ''document1:1'' (post_of jobA),
              Bumped ''document1:1'' ''Conflit serveur (409). revServer=3'', Sleep 500,
              Notify True 2,
              Fetch ''document1:1'' (post_of jobA), Removed ''document1:1'', Notify True 1]"
proof -
  have e: "effects example_client = []"
    and d: "distinct (map job_id (outbox (db example_client)))"
    and a: "jobA \<in> set (outbox (db example_client))"
    and b: "jobB \<in> set (outbox (db example_client))"
    by (simp_all add: example_client_def jobA_def jobB_def)
  have i: "job_id jobB = ''document1:2''" and c: "job_createdAt jobA < job_createdAt jobB"
    by (simp_all add: jobA_def jobB_def)
  have tr: "trace (run fifo_events example_client)
       = [Notify True 2,
          Fetch ''document1:1'' (post_of jobA),
          Bumped ''document1:1'' ''Conflit serveur (409). revServer=3'', Sleep 500,
          Notify True 2,
          Fetch ''document1:1'' (post_of jobA), Removed ''document1:1'', Notify True 1]
         @ Fetch ''document1:2'' (put_of jobB)
         # [Removed ''document1:2'', Notify True 0, Notify False 0]"
    by code_simp
  from outbox_drained_in_creation_order [OF e d, of fifo_events] tr a b i c
  have "Removed (job_id jobA)
       \<in> set [Notify True 2,
              Fetch ''document1:1'' (post_of jobA),
              Bumped ''document1:1'' ''Conflit serveur (409). revServer=3'', Sleep 500,
              Notify True 2,
              Fetch ''document1:1'' (post_of jobA), Removed ''document1:1'', Notify True 1]"
    by blast
  with e d tr a b i c show ?thesis
    by blast
qed

section \<open>Frontend: properties of the page\<close>

text \<open>
  C6. \<^verbatim>\<open>checkForUpdate(false)\<close> runs online, no check being in progress, and the server
  answers the meta request with a revision \<open>rv\<close>. If \<open>rv\<close> is the page's \<^verbatim>\<open>revLocal\<close>
  the status says that the document is up to date, and only \<^verbatim>\<open>revServer\<close> and the
  status change; if \<open>rv\<close> is less, the result is that of \<^verbatim>\<open>flushOutbox\<close>, with the status
  of line 228 once it has returned; if \<open>rv\<close> is greater, the conflict is set for the user
  to decide and the client's state does not change.
\<close>

theorem checkForUpdate_three_way:
  assumes "onLine cl" and "\<not> checkingUpdate ui"
    and "meta_fetched env = MetaResponse s (Some (name, rv))" and "ok_status s"
  shows "(rv = page_revLocal ui \<longrightarrow>
            checkForUpdate False env d ui cl
              = Some (ui\<lparr>page_revServer := Some rv, page_status := AJour (page_revLocal ui)\<rparr>, cl))
       \<and> (rv < page_revLocal ui \<longrightarrow>
            checkForUpdate False env d ui cl
              = map_option
                  (\<lambda>cl'. (ui\<lparr>page_revServer := Some rv, page_status := Synchronise\<rparr>, cl'))
                  (flushOutbox (flush_ticks env) cl))
       \<and> (page_revLocal ui < rv \<longrightarrow>
            checkForUpdate False env d ui cl
              = Some (ui\<lparr>page_revServer := Some rv,
                         conflict := Some \<lparr>serverRev = rv, serverFilename = name\<rparr>,
                         page_status := ConflitServeur rv (page_revLocal ui)\<rparr>, cl))"
  using assms
  by (auto simp: checkForUpdate_def check_done_def Let_def split: option.splits)

theorem checkForUpdate_three_way_witness:
  "onLine synced_client \<and> \<not> checkingUpdate example_page
   \<and> meta_fetched (example_env 3) = MetaResponse 200 (Some (''a.pdf'', 3))
   \<and> meta_fetched (example_env 4) = MetaResponse 200 (Some (''a.pdf'', 4))
   \<and> meta_fetched (example_env 2) = MetaResponse 200 (Some (''a.pdf'', 2))
   \<and> ok_status 200 \<and> page_revLocal example_page = 3
   \<and> map_option (page_status \<circ> fst)
        (checkForUpdate False (example_env 3) ''document1'' example_page synced_client)
       = Some (AJour 3)
   \<and> map_option (conflict \<circ> fst)
        (checkForUpdate False (example_env 4) ''document1'' example_page synced_client)
       = Some (Some \<lparr>serverRev = 4, serverFilename = ''a.pdf''\<rparr>)
   \<and> checkForUpdate False (example_env 2) ''document1'' example_page synced_client
       = map_option
           (\<lambda>cl'. (example_page\<lparr>page_revServer := Some 2, page_status := Synchronise\<rparr>, cl'))
           (flushOutbox (flush_ticks (example_env 2)) synced_client)"
proof -
  have on: "onLine synced_client"
    by (simp add: synced_client_def)
  have nc: "\<not> checkingUpdate example_page" and rl: "page_revLocal example_page = 3"
    by (simp_all add: example_page_def)
  have mf: "meta_fetched (example_env r) = MetaResponse 200 (Some (''a.pdf'', r))" for r
    by (simp add: example_env_def)
  have ok: "ok_status 200"
    by (simp add: ok_status_def)
  show ?thesis
    using on nc rl mf ok
      checkForUpdate_three_way [OF on nc mf ok, of 3 "''document1''"]
      checkForUpdate_three_way [OF on nc mf ok, of 4 "''document1''"]
      checkForUpdate_three_way [OF on nc mf ok, of 2 "''document1''"]
    by (simp add: option.map_comp comp_def)
qed

text \<open>
  C5, as the code has it. \<^verbatim>\<open>load\<close> runs online for a valid docId, is not cancelled, and
  the server's meta is at revision \<open>rv\<close>. When the device holds a copy of the document
  whose \<^verbatim>\<open>revLocal\<close> is less than \<open>rv\<close>, the conflict is set for the user to decide and
  neither the blobs nor the outbox change, whatever the outbox holds. When the device
  holds no copy (no meta, or no blob of its \<^verbatim>\<open>revLocal\<close>) and the file request succeeds,
  the server's bytes are stored under \<open>(docId, rv)\<close>, \<^verbatim>\<open>revServer\<close> becomes \<open>rv\<close>, the jobs of the document up to
  \<open>rv\<close> leave the outbox (\<^verbatim>\<open>addDocFromDrop\<close> with \<^verbatim>\<open>fromServer: true\<close>), and the
  conflict is left as it was.
\<close>

theorem load_surfaces_conflict_or_downloads:
  assumes "validDocId d" and "onLine cl" and "\<forall>k. \<not> cancelled env k"
    and "meta_fetched env = MetaResponse s (Some (name, rv))" and "ok_status s"
  shows "(\<forall>m content.
            docs (db cl) d = Some m \<and> blobs (db cl) (d, revLocal m) = Some content
            \<and> revLocal m < rv \<longrightarrow>
              conflict (fst (load mode env d ui cl))
                = Some \<lparr>serverRev = rv, serverFilename = name\<rparr>
            \<and> outbox (db (snd (load mode env d ui cl))) = outbox (db cl)
            \<and> blobs (db (snd (load mode env d ui cl))) = blobs (db cl))
       \<and> (\<forall>code blob.
            getDocBlobLatest d (db cl) = Inr None
            \<and> (\<forall>m. docs (db cl) d = Some m \<longrightarrow> docId m = d)
            \<and> file_fetched env = FileResponse code blob \<and> ok_status code \<longrightarrow>
              conflict (fst (load mode env d ui cl)) = conflict ui
            \<and> blobs (db (snd (load mode env d ui cl))) (d, rv) = Some blob
            \<and> map_option revServer (docs (db (snd (load mode env d ui cl))) d) = Some (Some rv)
            \<and> outbox (db (snd (load mode env d ui cl)))
                = filter (\<lambda>e. \<not> (job_docId e = d \<and> job_rev e \<le> rv)) (outbox (db cl)))"
proof (intro conjI allI impI)
  fix m content
  assume h: "docs (db cl) d = Some m \<and> blobs (db cl) (d, revLocal m) = Some content \<and> revLocal m < rv"
  have g: "getDocBlobLatest d (db cl) = Inr (Some content)"
    using h assms(1) by (simp add: getDocBlobLatest_def ensureDocId_def)
  have u: "upsertDocMeta (now_load_first env) d (\<lambda>m. m) (db cl)
      = Inr (m, (db cl)\<lparr>docs := (docs (db cl))(docId m \<mapsto> m)\<rparr>)"
    using h assms(1) by (simp add: upsertDocMeta_def ensureDocId_def Let_def)
  have f: "fetchMetaSafe (meta_fetched env) = Some (name, rv)"
    using assms(4,5) by (simp add: fetchMetaSafe_def)
  show "conflict (fst (load mode env d ui cl)) = Some \<lparr>serverRev = rv, serverFilename = name\<rparr>"
    using h assms(2,3) by (simp add: load_def g u f Let_def)
  show "outbox (db (snd (load mode env d ui cl))) = outbox (db cl)"
    using h assms(2,3) by (simp add: load_def g u f Let_def)
  show "blobs (db (snd (load mode env d ui cl))) = blobs (db cl)"
    using h assms(2,3) by (simp add: load_def g u f Let_def)
next
  fix code blob
  assume h: "getDocBlobLatest d (db cl) = Inr None
            \<and> (\<forall>m. docs (db cl) d = Some m \<longrightarrow> docId m = d)
            \<and> file_fetched env = FileResponse code blob \<and> ok_status code"
  have all: "conflict (fst (load mode env d ui cl)) = conflict ui
      \<and> blobs (db (snd (load mode env d ui cl))) (d, rv) = Some blob
      \<and> map_option revServer (docs (db (snd (load mode env d ui cl))) d) = Some (Some rv)
      \<and> outbox (db (snd (load mode env d ui cl)))
                = filter (\<lambda>e. \<not> (job_docId e = d \<and> job_rev e \<le> rv)) (outbox (db cl))"
    using h assms
    by (auto simp: load_def load_download_def load_not_found_def addDocFromDrop_def
        upsertDocMeta_def getDocBlobLatest_def ensureDocId_def fetchMetaSafe_def
        clearOutboxForDoc_def Let_def split: option.splits)
  show "conflict (fst (load mode env d ui cl)) = conflict ui"
    using all by simp
  show "blobs (db (snd (load mode env d ui cl))) (d, rv) = Some blob"
    using all by simp
  show "map_option revServer (docs (db (snd (load mode env d ui cl))) d) = Some (Some rv)"
    using all by simp
  show "outbox (db (snd (load mode env d ui cl)))
                = filter (\<lambda>e. \<not> (job_docId e = d \<and> job_rev e \<le> rv)) (outbox (db cl))"
    using all by simp
qed

theorem load_surfaces_conflict_or_downloads_witness:
  "validDocId ''document1'' \<and> onLine synced_client \<and> onLine example_client
   \<and> (\<forall>k. \<not> cancelled (example_env 4) k)
   \<and> meta_fetched (example_env 4) = MetaResponse 200 (Some (''a.pdf'', 4)) \<and> ok_status 200
   \<and> conflict (fst (load LocalMode (example_env 4) ''document1'' example_page synced_client))
       = Some \<lparr>serverRev = 4, serverFilename = ''a.pdf''\<rparr>
   \<and> outbox (db (snd (load LocalMode (example_env 4) ''document1'' example_page synced_client))) = []
   \<and> getDocBlobLatest ''document1'' (db example_client) = Inr None
   \<and> conflict (fst (load StableMode (example_env 4) ''document1'' example_page example_client)) = None
   \<and> blobs (db (snd (load StableMode (example_env 4) ''document1'' example_page example_client)))
        (''document1'', 4) = Some [9]
   \<and> outbox (db (snd (load StableMode (example_env 4) ''document1'' example_page example_client))) = []"
proof -
  have v: "validDocId ''document1''"
    by (simp add: validDocId_def docIdChar_def)
  have on1: "onLine synced_client" and on2: "onLine example_client"
    by (simp_all add: synced_client_def example_client_def)
  have nc: "\<forall>k. \<not> cancelled (example_env 4) k"
    by (simp add: example_env_def)
  have mf: "meta_fetched (example_env 4) = MetaResponse 200 (Some (''a.pdf'', 4))"
    by (simp add: example_env_def)
  have ok: "ok_status 200"
    by (simp add: ok_status_def)
  have local: "docs (db synced_client) ''document1''
        = Some \<lparr>docId = ''document1'', filename = ''a.pdf'', createdAt = 10, updatedAt = 20,
                 revLocal = 3, revServer = Some 3, lastSyncedAt = Some 20\<rparr>"
    "blobs (db synced_client) (''document1'', 3) = Some [1, 2]"
    "outbox (db synced_client) = []"
    by (simp_all add: synced_client_def)
  have fresh: "getDocBlobLatest ''document1'' (db example_client) = Inr None"
    "\<forall>m. docs (db example_client) ''document1'' = Some m \<longrightarrow> docId m = ''document1''"
    "file_fetched (example_env 4) = FileResponse 200 [9]"
    "conflict example_page = None"
    "filter (\<lambda>e. \<not> (job_docId e = ''document1'' \<and> job_rev e \<le> 4)) (outbox (db example_client)) = []"
    using v
    by (simp_all add: example_client_def example_env_def example_page_def jobA_def jobB_def
        getDocBlobLatest_def ensureDocId_def)
  show ?thesis
    using v on1 on2 nc mf ok local fresh
      load_surfaces_conflict_or_downloads [OF v on1 nc mf ok, of LocalMode example_page]
      load_surfaces_conflict_or_downloads [OF v on2 nc mf ok, of StableMode example_page]
    by simp
qed

text \<open>
  C5, as the claim states it, fails: the device holds revision 3, which is also the last
  revision it knows the server to hold, and its outbox is empty; the server is at
  revision 4. \<^verbatim>\<open>load\<close> sets the conflict and downloads nothing.
\<close>

theorem load_auto_resolve_counterexample:
  "outbox (db synced_client) = []
   \<and> map_option revLocal (docs (db synced_client) ''document1'') = Some 3
   \<and> map_option revServer (docs (db synced_client) ''document1'') = Some (Some 3)
   \<and> conflict (fst (load LocalMode (example_env 4) ''document1'' example_page synced_client))
       = Some \<lparr>serverRev = 4, serverFilename = ''a.pdf''\<rparr>
   \<and> blobs (db (snd (load LocalMode (example_env 4) ''document1'' example_page synced_client)))
        (''document1'', 4) = None
   \<and> map_option revLocal
        (docs (db (snd (load LocalMode (example_env 4) ''document1'' example_page synced_client)))
           ''document1'') = Some 3"
  by code_simp

end
